theory Spec2Isabelle
  imports Main "HOL-Library.Word"
begin

unbundle bit_operations_syntax

section \<open>Strings\<close>

text \<open>
  A Go string is a sequence of bytes: \<^typ>\<open>string\<close>. The functions of package
  \<^verbatim>\<open>strings\<close> that \<^verbatim>\<open>xip.go\<close> calls are written out below. \<open>ToLower\<close> lowers the
  ASCII letters and leaves every other byte alone (for bytes above 127 Go applies the
  Unicode mapping; no theorem below depends on what \<open>ToLower\<close> does to them).
\<close>

definition lowerChar :: "char \<Rightarrow> char" where
  "lowerChar c =
     (let n = (of_char c :: int) in if 65 \<le> n \<and> n \<le> 90 then char_of (n + 32) else c)"

definition upperChar :: "char \<Rightarrow> char" where
  "upperChar c =
     (let n = (of_char c :: int) in if 97 \<le> n \<and> n \<le> 122 then char_of (n - 32) else c)"

definition ToLower :: "string \<Rightarrow> string" where
  "ToLower s = map lowerChar s"

text \<open>\<^verbatim>\<open>strings.HasPrefix\<close> and \<^verbatim>\<open>strings.Contains\<close>.\<close>

fun HasPrefix :: "string \<Rightarrow> string \<Rightarrow> bool" where
  "HasPrefix s [] = True"
| "HasPrefix [] (b # bs) = False"
| "HasPrefix (a # as) (b # bs) = (a = b \<and> HasPrefix as bs)"

fun Contains :: "string \<Rightarrow> string \<Rightarrow> bool" where
  "Contains [] sub = (sub = [])"
| "Contains (a # as) sub = (HasPrefix (a # as) sub \<or> Contains as sub)"

text \<open>\<^verbatim>\<open>strings.Split(s, ".")\<close>: the fields between the separators, empty ones kept.\<close>

fun Split :: "string \<Rightarrow> char \<Rightarrow> string list" where
  "Split [] sep = [[]]"
| "Split (c # cs) sep =
     (if c = sep then [] # Split cs sep
      else (case Split cs sep of
              [] \<Rightarrow> [[c]]
            | f # fs \<Rightarrow> (c # f) # fs))"

text \<open>\<^verbatim>\<open>strings.Join(fields, ".")\<close>.\<close>

fun Join :: "string list \<Rightarrow> char \<Rightarrow> string" where
  "Join [] sep = []"
| "Join [f] sep = f"
| "Join (f # g # fs) sep = f @ sep # Join (g # fs) sep"

text \<open>\<^verbatim>\<open>strings.Replace(s, old, new, -1)\<close> for one-byte \<open>old\<close> and \<open>new\<close>.\<close>

definition Replace :: "string \<Rightarrow> char \<Rightarrow> char \<Rightarrow> string" where
  "Replace s old new = map (\<lambda>c. if c = old then new else c) s"

section \<open>Regular expressions\<close>

text \<open>
  Package \<^verbatim>\<open>regexp\<close> on the patterns of \<^verbatim>\<open>xip.go\<close>. A pattern is a tree; \<open>run\<close>
  lists the ways a pattern matches at one place of the input, in the order in which a
  backtracking search finds them (the left alternative first, one more repetition before
  one fewer). A state is the offset reached, the input that is left, and the groups
  captured so far (the latest first).
\<close>

datatype re =
    Cls "char list"      \<comment> \<open>one byte of a class, the class listed\<close>
  | Bol                  \<comment> \<open>\<^verbatim>\<open>^\<close>\<close>
  | Eol                  \<comment> \<open>\<^verbatim>\<open>$\<close>\<close>
  | Eps
  | Seq re re
  | Alt re re
  | Opt re               \<comment> \<open>\<^verbatim>\<open>r?\<close>\<close>
  | StarC "char list"    \<comment> \<open>\<^verbatim>\<open>[...]*\<close>\<close>
  | Grp nat re           \<comment> \<open>capture group number \<open>n\<close>\<close>

type_synonym caps = "(nat \<times> string) list"
type_synonym mstate = "nat \<times> string \<times> caps"

fun starC :: "char list \<Rightarrow> mstate \<Rightarrow> mstate list" where
  "starC cs (p, [], c) = [(p, [], c)]"
| "starC cs (p, x # xs, c) =
     (if x \<in> set cs then starC cs (Suc p, xs, c) @ [(p, x # xs, c)]
      else [(p, x # xs, c)])"

fun run :: "re \<Rightarrow> mstate \<Rightarrow> mstate list" where
  "run (Cls cs) (p, s, c) =
     (case s of [] \<Rightarrow> [] | x # xs \<Rightarrow> if x \<in> set cs then [(Suc p, xs, c)] else [])"
| "run Bol (p, s, c) = (if p = 0 then [(p, s, c)] else [])"
| "run Eol (p, s, c) = (if s = [] then [(p, s, c)] else [])"
| "run Eps st = [st]"
| "run (Seq a b) st = concat (map (run b) (run a st))"
| "run (Alt a b) st = run a st @ run b st"
| "run (Opt a) st = run a st @ [st]"
| "run (StarC cs) st = starC cs st"
| "run (Grp n a) (p, s, c) =
     map (\<lambda>(q, t, c'). (q, t, (n, take (q - p) s) # c')) (run a (p, s, c))"

text \<open>Counted repetition \<^verbatim>\<open>r{n}\<close> and \<^verbatim>\<open>r{n,m}\<close>, unrolled as the compiler does.\<close>

fun repeatN :: "nat \<Rightarrow> re \<Rightarrow> re" where
  "repeatN 0 r = Eps"
| "repeatN (Suc 0) r = r"
| "repeatN (Suc (Suc n)) r = Seq r (repeatN (Suc n) r)"

fun upto_re :: "nat \<Rightarrow> re \<Rightarrow> re" where
  "upto_re 0 r = Eps"
| "upto_re (Suc n) r = Opt (Seq r (upto_re n r))"

definition rep :: "nat \<Rightarrow> nat \<Rightarrow> re \<Rightarrow> re" where
  "rep n m r = (if m = n then repeatN n r else Seq (repeatN n r) (upto_re (m - n) r))"

fun seqs :: "re list \<Rightarrow> re" where
  "seqs [] = Eps"
| "seqs [r] = r"
| "seqs (r # rs) = Seq r (seqs rs)"

fun alts :: "re list \<Rightarrow> re" where
  "alts [] = Cls []"
| "alts [r] = r"
| "alts (r # rs) = Alt r (alts rs)"

definition lit :: "string \<Rightarrow> re" where
  "lit s = seqs (map (\<lambda>c. Cls [c]) s)"

text \<open>A literal under \<^verbatim>\<open>(?i)\<close>: each letter in either case.\<close>

definition lit_ci :: "string \<Rightarrow> re" where
  "lit_ci s = seqs (map (\<lambda>c. Cls (remdups [lowerChar c, upperChar c])) s)"

text \<open>
  The unanchored search: the leftmost offset at which the pattern matches, and there the
  match a backtracking search finds first (\<open>search\<close>) or, after \<^verbatim>\<open>Longest()\<close>, the
  first among the longest ones (\<open>searchLongest\<close>).
\<close>

fun search :: "re \<Rightarrow> nat \<Rightarrow> string \<Rightarrow> mstate option" where
  "search r p s =
     (case run r (p, s, []) of
        m # ms \<Rightarrow> Some m
      | [] \<Rightarrow> (case s of [] \<Rightarrow> None | x # xs \<Rightarrow> search r (Suc p) xs))"

fun longest :: "mstate \<Rightarrow> mstate list \<Rightarrow> mstate" where
  "longest m [] = m"
| "longest m (m' # ms) = (if fst m < fst m' then longest m' ms else longest m ms)"

fun searchLongest :: "re \<Rightarrow> nat \<Rightarrow> string \<Rightarrow> mstate option" where
  "searchLongest r p s =
     (case run r (p, s, []) of
        m # ms \<Rightarrow> Some (longest m ms)
      | [] \<Rightarrow> (case s of [] \<Rightarrow> None | x # xs \<Rightarrow> searchLongest r (Suc p) xs))"

definition Match :: "re \<Rightarrow> string \<Rightarrow> bool" where
  "Match r s = (search r 0 s \<noteq> None)"

text \<open>
  \<^verbatim>\<open>FindSubmatch(s)[n]\<close>, called in \<^verbatim>\<open>xip.go\<close> only after a successful \<open>Match\<close>; a group
  that took no part in the match is the empty string.
\<close>

fun group :: "nat \<Rightarrow> caps \<Rightarrow> string" where
  "group n [] = []"
| "group n ((k, v) # c) = (if k = n then v else group n c)"

definition FindSubmatch :: "re \<Rightarrow> string \<Rightarrow> nat \<Rightarrow> string" where
  "FindSubmatch r s n = (case search r 0 s of None \<Rightarrow> [] | Some (q, t, c) \<Rightarrow> group n c)"

definition FindSubmatchLongest :: "re \<Rightarrow> string \<Rightarrow> nat \<Rightarrow> string" where
  "FindSubmatchLongest r s n =
     (case searchLongest r 0 s of None \<Rightarrow> [] | Some (q, t, c) \<Rightarrow> group n c)"

subsection \<open>The patterns of \<^verbatim>\<open>xip.go\<close>\<close>

definition digit :: "char list" where
  "digit = ''0123456789''"

definition hexdigit :: "char list" where
  "hexdigit = ''0123456789abcdefABCDEF''"

definition sepStart :: re where
  \<comment> \<open>\<^verbatim>\<open>(^|[.-])\<close>\<close>
  "sepStart = Alt Bol (Cls ''.-'')"

definition sepEnd :: re where
  \<comment> \<open>\<^verbatim>\<open>($|[.-])\<close>\<close>
  "sepEnd = Alt Eol (Cls ''.-'')"

definition octet :: re where
  \<comment> \<open>\<^verbatim>\<open>25[0-5]|(2[0-4]|1?[0-9])?[0-9]\<close>\<close>
  "octet =
     Alt (seqs [Cls ''2'', Cls ''5'', Cls ''012345''])
         (Seq (Opt (Alt (Seq (Cls ''2'') (Cls ''01234''))
                        (Seq (Opt (Cls ''1'')) (Cls digit))))
              (Cls digit))"

definition ipv4Body :: "char \<Rightarrow> re" where
  \<comment> \<open>\<^verbatim>\<open>((octet)SEP){3}(octet)\<close>\<close>
  "ipv4Body sep = Seq (repeatN 3 (Seq octet (Cls [sep]))) octet"

definition ipv4REDots :: re where
  "ipv4REDots = seqs [Grp 1 sepStart, Grp 2 (ipv4Body CHR ''.''), Grp 8 sepEnd]"

definition ipv4REDashes :: re where
  "ipv4REDashes = seqs [Grp 1 sepStart, Grp 2 (ipv4Body CHR ''-''), Grp 8 sepEnd]"

definition dns01ChallengeRE :: re where
  \<comment> \<open>\<^verbatim>\<open>(?i)_acme-challenge\.\<close>\<close>
  "dns01ChallengeRE = lit_ci ''_acme-challenge.''"

definition kvRE :: re where
  \<comment> \<open>\<^verbatim>\<open>\.k-v\.io\.$\<close>\<close>
  "kvRE = Seq (lit ''.k-v.io.'') Eol"

definition hex14 :: re where
  \<comment> \<open>\<^verbatim>\<open>[0-9a-fA-F]{1,4}\<close>\<close>
  "hex14 = rep 1 4 (Cls hexdigit)"

definition hexDash :: re where
  \<comment> \<open>\<^verbatim>\<open>[0-9a-fA-F]{1,4}-\<close>\<close>
  "hexDash = Seq hex14 (Cls ''-'')"

definition dashHex :: re where
  \<comment> \<open>\<^verbatim>\<open>-[0-9a-fA-F]{1,4}\<close>\<close>
  "dashHex = Seq (Cls ''-'') hex14"

definition alnum :: "char list" where
  "alnum = ''0123456789abcdefghijklmnopqrstuvwxyzABCDEFGHIJKLMNOPQRSTUVWXYZ''"

definition ipv6Body :: re where
  "ipv6Body = alts [
     Seq (repeatN 7 hexDash) hex14,
     Seq (rep 1 7 hexDash) (Cls ''-''),
     seqs [rep 1 6 hexDash, Cls ''-'', hex14],
     Seq (rep 1 5 hexDash) (rep 1 2 dashHex),
     Seq (rep 1 4 hexDash) (rep 1 3 dashHex),
     Seq (rep 1 3 hexDash) (rep 1 4 dashHex),
     Seq (rep 1 2 hexDash) (rep 1 5 dashHex),
     seqs [hex14, Cls ''-'', rep 1 6 dashHex],
     Seq (Cls ''-'') (Alt (rep 1 7 dashHex) (Cls ''-'')),
     seqs [lit ''fe80-'', rep 0 4 (Seq (Cls ''-'') (rep 0 4 (Cls hexdigit))), Cls ''%'',
           Cls alnum, StarC alnum],
     seqs [lit ''--'',
           Opt (seqs [lit ''ffff'', Opt (Seq (Cls ''-'') (rep 1 4 (Cls ''0''))), Cls ''-'']),
           ipv4Body CHR ''.''],
     seqs [rep 1 4 hexDash, Cls ''-'', ipv4Body CHR ''.'']]"

definition ipv6RE :: re where
  "ipv6RE = seqs [Grp 1 sepStart, Grp 2 ipv6Body, Grp 32 sepEnd]"

section \<open>IP addresses\<close>

text \<open>
  Package \<^verbatim>\<open>net\<close>: an \<open>IP\<close> is a slice of bytes, of length 4 or 16 when it is an
  address; the nil slice is the empty list. \<open>ParseIP\<close> and its helpers follow
  \<^verbatim>\<open>net/ip.go\<close> and \<^verbatim>\<open>net/parse.go\<close> of the Go release that introduced
  \<^verbatim>\<open>IP.IsPrivate\<close>, which \<^verbatim>\<open>xip.go\<close> calls.
\<close>

type_synonym byte = "8 word"
type_synonym IP = "byte list"

text \<open>Go's \<^verbatim>\<open>int\<close> is \<^typ>\<open>int\<close> here: the parsers stop at \<open>big\<close>, far below its range.\<close>

definition big :: int where
  "big = 0xFFFFFF"

definition digitVal :: "char \<Rightarrow> int" where
  "digitVal c = of_char c - 48"

definition isDigit :: "char \<Rightarrow> bool" where
  "isDigit c = (48 \<le> (of_char c :: int) \<and> (of_char c :: int) \<le> 57)"

text \<open>\<^verbatim>\<open>dtoi\<close>: decimal to integer; the number, the bytes consumed, success.\<close>

fun dtoi_loop :: "string \<Rightarrow> int \<Rightarrow> nat \<Rightarrow> int \<times> nat \<times> bool" where
  "dtoi_loop [] n i = (n, i, True)"
| "dtoi_loop (c # cs) n i =
     (if isDigit c then
        (let n' = n * 10 + digitVal c in
         if n' \<ge> big then (big, i, False) else dtoi_loop cs n' (Suc i))
      else (n, i, True))"

definition dtoi :: "string \<Rightarrow> int \<times> nat \<times> bool" where
  "dtoi s =
     (case dtoi_loop s 0 0 of
        (n, i, ok) \<Rightarrow> if \<not> ok then (n, i, False) else if i = 0 then (0, 0, False) else (n, i, True))"

definition hexVal :: "char \<Rightarrow> int option" where
  "hexVal c =
     (let n = (of_char c :: int) in
      if 48 \<le> n \<and> n \<le> 57 then Some (n - 48)
      else if 97 \<le> n \<and> n \<le> 102 then Some (n - 97 + 10)
      else if 65 \<le> n \<and> n \<le> 70 then Some (n - 65 + 10)
      else None)"

text \<open>\<^verbatim>\<open>xtoi\<close>: hexadecimal to integer.\<close>

fun xtoi_loop :: "string \<Rightarrow> int \<Rightarrow> nat \<Rightarrow> int \<times> nat \<times> bool" where
  "xtoi_loop [] n i = (n, i, True)"
| "xtoi_loop (c # cs) n i =
     (case hexVal c of
        None \<Rightarrow> (n, i, True)
      | Some d \<Rightarrow>
          (let n' = n * 16 + d in
           if n' \<ge> big then (0, i, False) else xtoi_loop cs n' (Suc i)))"

definition xtoi :: "string \<Rightarrow> int \<times> nat \<times> bool" where
  "xtoi s =
     (case xtoi_loop s 0 0 of
        (n, i, ok) \<Rightarrow> if \<not> ok then (n, i, False) else if i = 0 then (0, i, False) else (n, i, True))"

definition v4InV6Prefix :: "byte list" where
  "v4InV6Prefix = [0, 0, 0, 0, 0, 0, 0, 0, 0, 0, 0xff, 0xff]"

definition IPv4 :: "byte \<Rightarrow> byte \<Rightarrow> byte \<Rightarrow> byte \<Rightarrow> IP" where
  "IPv4 a b c d = v4InV6Prefix @ [a, b, c, d]"

text \<open>
  \<^verbatim>\<open>parseIPv4\<close>: four decimal fields separated by dots, each at most 255, none with a
  leading zero before another digit. \<open>k\<close> fields are still to be read.
\<close>

fun parseIPv4_fields :: "nat \<Rightarrow> bool \<Rightarrow> string \<Rightarrow> byte list option" where
  "parseIPv4_fields 0 first s = (if s = [] then Some [] else None)"
| "parseIPv4_fields (Suc k) first s =
     (if s = [] then None
      else
        (case (if first then Some s
               else (case s of [] \<Rightarrow> None | c # t \<Rightarrow> if c = CHR ''.'' then Some t else None)) of
           None \<Rightarrow> None
         | Some s1 \<Rightarrow>
             (case dtoi s1 of
                (n, c, ok) \<Rightarrow>
                  if \<not> ok \<or> n > 0xFF then None
                  else if c > 1 \<and> take 1 s1 = ''0'' then None
                  else map_option (Cons (of_int n)) (parseIPv4_fields k False (drop c s1)))))"

definition parseIPv4 :: "string \<Rightarrow> IP" where
  "parseIPv4 s =
     (case parseIPv4_fields 4 True s of
        Some [a, b, c, d] \<Rightarrow> IPv4 a b c d
      | _ \<Rightarrow> [])"

text \<open>
  \<^verbatim>\<open>parseIPv6\<close>. The loop reads groups of hexadecimal digits followed by colons;
  \<open>ip\<close> holds the bytes written so far (Go's index \<open>i\<close> is its length) and \<open>ell\<close> the
  place of the ellipsis, if one was seen. The loop ends with the bytes, the input left
  and the ellipsis, or with \<open>None\<close> where Go returns nil.
\<close>

function parseIPv6_loop :: "byte list \<Rightarrow> string \<Rightarrow> nat option \<Rightarrow> (byte list \<times> string \<times> nat option) option" where
  "parseIPv6_loop ip s ell =
     (if length ip < 16 then
        (case xtoi s of
           (n, c, ok) \<Rightarrow>
             if \<not> ok \<or> n > 0xFFFF then None
             else if c < length s \<and> s ! c = CHR ''.'' then
               (if ell = None \<and> length ip \<noteq> 12 then None
                else if length ip + 4 > 16 then None
                else (case parseIPv4 s of
                        [] \<Rightarrow> None
                      | ip4 \<Rightarrow> Some (ip @ drop 12 ip4, [], ell)))
             else
               (let ip' = ip @ [of_int (n div 256), of_int n]; s1 = drop c s in
                if s1 = [] then Some (ip', [], ell)
                else if take 1 s1 \<noteq> '':'' \<or> length s1 = 1 then None
                else
                  (let s2 = drop 1 s1 in
                   if take 1 s2 = '':'' then
                     (if ell \<noteq> None then None
                      else if drop 1 s2 = [] then Some (ip', [], Some (length ip'))
                      else parseIPv6_loop ip' (drop 1 s2) (Some (length ip')))
                   else parseIPv6_loop ip' s2 ell)))
      else Some (ip, s, ell))"
  by pat_completeness auto
termination
  by (relation "measure (\<lambda>(ip, s, ell). 16 - length ip)") auto

definition parseIPv6_finish :: "(byte list \<times> string \<times> nat option) option \<Rightarrow> IP" where
  "parseIPv6_finish r =
     (case r of
        None \<Rightarrow> []
      | Some (ip, s, ell) \<Rightarrow>
          if s \<noteq> [] then []
          else if length ip < 16 then
            (case ell of
               None \<Rightarrow> []
             | Some e \<Rightarrow> take e ip @ replicate (16 - length ip) 0 @ drop e ip)
          else if ell \<noteq> None then []
          else ip)"

definition parseIPv6 :: "string \<Rightarrow> IP" where
  "parseIPv6 s =
     (if length s \<ge> 2 \<and> take 2 s = ''::'' then
        (if drop 2 s = [] then replicate 16 0
         else parseIPv6_finish (parseIPv6_loop [] (drop 2 s) (Some 0)))
      else parseIPv6_finish (parseIPv6_loop [] s None))"

text \<open>\<^verbatim>\<open>ParseIP\<close>: the first dot or colon of the string decides the parser.\<close>

fun ParseIP_scan :: "string \<Rightarrow> string \<Rightarrow> IP" where
  "ParseIP_scan s [] = []"
| "ParseIP_scan s (c # cs) =
     (if c = CHR ''.'' then parseIPv4 s
      else if c = CHR '':'' then parseIPv6 s
      else ParseIP_scan s cs)"

definition ParseIP :: "string \<Rightarrow> IP" where
  "ParseIP s = ParseIP_scan s s"

definition To4 :: "IP \<Rightarrow> IP" where
  "To4 ip =
     (if length ip = 4 then ip
      else if length ip = 16 \<and> take 10 ip = replicate 10 0 \<and> ip ! 10 = 0xff \<and> ip ! 11 = 0xff
      then drop 12 ip
      else [])"

definition To16 :: "IP \<Rightarrow> IP" where
  "To16 ip =
     (if length ip = 4 then IPv4 (ip ! 0) (ip ! 1) (ip ! 2) (ip ! 3)
      else if length ip = 16 then ip
      else [])"

text \<open>\<^verbatim>\<open>IP.IsPrivate\<close>: the private IPv4 addresses of RFC 1918 and the local IPv6
  unicast addresses of RFC 4193.\<close>

definition IsPrivate :: "IP \<Rightarrow> bool" where
  "IsPrivate ip =
     (case To4 ip of
        a # b # rest \<Rightarrow>
          a = 10 \<or> (a = 172 \<and> b AND 0xf0 = 16) \<or> (a = 192 \<and> b = 168)
      | _ \<Rightarrow> length ip = 16 \<and> (ip ! 0) AND 0xfe = 0xfc)"

text \<open>\<^verbatim>\<open>IPNet\<close> and \<^verbatim>\<open>IPNet.Contains\<close>.\<close>

record IPNet =
  IP :: IP
  Mask :: "byte list"

definition networkNumberAndMask :: "IPNet \<Rightarrow> IP \<times> byte list" where
  "networkNumberAndMask n =
     (let ip = (if To4 (IP n) = [] then IP n else To4 (IP n)) in
      if To4 (IP n) = [] \<and> length ip \<noteq> 16 then ([], [])
      else if length (Mask n) = 4 then (if length ip \<noteq> 4 then ([], []) else (ip, Mask n))
      else if length (Mask n) = 16 then
        (if length ip = 4 then (ip, drop 12 (Mask n)) else (ip, Mask n))
      else ([], []))"

definition IPNet_Contains :: "IPNet \<Rightarrow> IP \<Rightarrow> bool" where
  "IPNet_Contains n ip =
     (case networkNumberAndMask n of
        (nn, m) \<Rightarrow>
          (let ip' = (if To4 ip \<noteq> [] then To4 ip else ip) in
           length ip' = length nn \<and>
           list_all (\<lambda>i. (nn ! i) AND (m ! i) = (ip' ! i) AND (m ! i)) [0..<length ip']))"

section \<open>DNS messages\<close>

text \<open>
  The types of package \<^verbatim>\<open>dnsmessage\<close> that \<^verbatim>\<open>xip.go\<close> uses. A \<open>Name\<close> is the
  string its \<^verbatim>\<open>String()\<close> method returns, of at most 255 bytes. A resource with one
  field is that field: an \<open>AResource\<close> is its 4 bytes, an \<open>AAAAResource\<close> its 16 bytes,
  a \<open>TXTResource\<close> its list of strings, an \<open>NSResource\<close> and a \<open>CNAMEResource\<close> a name.
\<close>

type_synonym Name = string

definition NewName :: "string \<Rightarrow> Name option" where
  "NewName s = (if length s > 255 then None else Some s)"

text \<open>\<^verbatim>\<open>n, _ := dnsmessage.NewName(s)\<close>: the zero name when \<open>NewName\<close> fails.\<close>

definition NewName_ignoring_error :: "string \<Rightarrow> Name" where
  "NewName_ignoring_error s = (case NewName s of None \<Rightarrow> [] | Some n \<Rightarrow> n)"

type_synonym Type = "16 word"

definition TypeA :: Type where "TypeA = 1"
definition TypeNS :: Type where "TypeNS = 2"
definition TypeCNAME :: Type where "TypeCNAME = 5"
definition TypeSOA :: Type where "TypeSOA = 6"
definition TypeMX :: Type where "TypeMX = 15"
definition TypeTXT :: Type where "TypeTXT = 16"
definition TypeAAAA :: Type where "TypeAAAA = 28"
definition TypeALL :: Type where "TypeALL = 255"

type_synonym Class = "16 word"

definition ClassINET :: Class where "ClassINET = 1"

datatype RCode = RCodeSuccess | RCodeFormatError | RCodeServerFailure | RCodeNameError
  | RCodeNotImplemented | RCodeRefused

record Header =
  ID :: "16 word"
  Response :: bool
  OpCode :: "16 word"
  Authoritative :: bool
  Truncated :: bool
  RecursionDesired :: bool
  RecursionAvailable :: bool
  RCode :: RCode

record ResourceHeader =
  Name :: Name
  Type :: Type
  Class :: Class
  TTL :: "32 word"
  Length :: "16 word"

datatype Question = Question (qName: Name) (qType: Type) (qClass: Class)

type_synonym AResource = "byte list"
type_synonym AAAAResource = "byte list"
type_synonym CNAMEResource = Name
type_synonym NSResource = Name
type_synonym TXTResource = "string list"

datatype MXResource = MXResource (Pref: "16 word") (MXName: Name)

record SOAResource =
  NS :: Name
  MBox :: Name
  Serial :: "32 word"
  Refresh :: "32 word"
  Retry :: "32 word"
  Expire :: "32 word"
  MinTTL :: "32 word"

text \<open>
  A \<open>Response\<close> holds, for each section, a list of functions that write resources to a
  \<^verbatim>\<open>dnsmessage.Builder\<close>. Such a function is modelled by the calls it makes, in order:
  \<open>B_A h r\<close> is the call \<^verbatim>\<open>b.AResource(h, r)\<close>, and so on. The calls are taken to
  succeed (the builder fails only when it is used out of order or a name cannot be
  packed).
\<close>

datatype bcall =
    B_A ResourceHeader AResource
  | B_AAAA ResourceHeader AAAAResource
  | B_CNAME ResourceHeader CNAMEResource
  | B_MX ResourceHeader MXResource
  | B_NS ResourceHeader NSResource
  | B_SOA ResourceHeader SOAResource
  | B_TXT ResourceHeader TXTResource

record Response =
  Header :: Header
  Answers :: "bcall list list"
  Authorities :: "bcall list list"
  Additionals :: "bcall list list"

text \<open>
  What a call puts into the message: every \<^verbatim>\<open>Builder\<close> method for a resource sets
  the header's type to the type of the resource body before it packs the header
  (\<^verbatim>\<open>h.Type = r.realType()\<close> in \<^verbatim>\<open>dnsmessage\<close>), so the type written in the header
  by the caller is not the one sent.
\<close>

datatype ResourceBody =
    BodyA AResource
  | BodyAAAA AAAAResource
  | BodyCNAME CNAMEResource
  | BodyMX MXResource
  | BodyNS NSResource
  | BodySOA SOAResource
  | BodyTXT TXTResource

fun realType :: "ResourceBody \<Rightarrow> Type" where
  "realType (BodyA r) = TypeA"
| "realType (BodyAAAA r) = TypeAAAA"
| "realType (BodyCNAME r) = TypeCNAME"
| "realType (BodyMX r) = TypeMX"
| "realType (BodyNS r) = TypeNS"
| "realType (BodySOA r) = TypeSOA"
| "realType (BodyTXT r) = TypeTXT"

fun callHeader :: "bcall \<Rightarrow> ResourceHeader" where
  "callHeader (B_A h r) = h"
| "callHeader (B_AAAA h r) = h"
| "callHeader (B_CNAME h r) = h"
| "callHeader (B_MX h r) = h"
| "callHeader (B_NS h r) = h"
| "callHeader (B_SOA h r) = h"
| "callHeader (B_TXT h r) = h"

fun callBody :: "bcall \<Rightarrow> ResourceBody" where
  "callBody (B_A h r) = BodyA r"
| "callBody (B_AAAA h r) = BodyAAAA r"
| "callBody (B_CNAME h r) = BodyCNAME r"
| "callBody (B_MX h r) = BodyMX r"
| "callBody (B_NS h r) = BodyNS r"
| "callBody (B_SOA h r) = BodySOA r"
| "callBody (B_TXT h r) = BodyTXT r"

definition build :: "bcall \<Rightarrow> ResourceHeader \<times> ResourceBody" where
  "build c = ((callHeader c)\<lparr>Type := realType (callBody c)\<rparr>, callBody c)"

text \<open>The resources of a section as \<^verbatim>\<open>QueryResponse\<close> writes them: every function of
  the section in turn.\<close>

definition written :: "bcall list list \<Rightarrow> (ResourceHeader \<times> ResourceBody) list" where
  "written fs = map build (concat fs)"

section \<open>The server's state\<close>

datatype error =
    EtcdError string                   \<comment> \<open>an error the etcd client returns\<close>
  | CouldntGET string error            \<comment> \<open>\<^verbatim>\<open>couldn't GET "%s": %w\<close>\<close>
  | CouldntPUT string string error     \<comment> \<open>\<^verbatim>\<open>couldn't PUT (%s: %s): %w\<close>\<close>
  | CouldntDELETE string error         \<comment> \<open>\<^verbatim>\<open>couldn't DELETE (key %s): %w\<close>\<close>
  | NoMXRecords                        \<comment> \<open>\<^verbatim>\<open>no MX records, but there should be one\<close>\<close>
  | Panic                              \<comment> \<open>a run-time panic: an index out of range\<close>

record Metrics =
  Queries :: "64 word"
  AnsweredQueries :: "64 word"
  AnsweredAQueries :: "64 word"
  AnsweredAAAAQueries :: "64 word"
  AnsweredTXTSrcIPQueries :: "64 word"
  AnsweredXTVersionQueries :: "64 word"
  AnsweredNSDNS01ChallengeQueries :: "64 word"
  AnsweredBlockedQueries :: "64 word"

text \<open>
  The etcd client is outside the program: the record gives what each method of
  \<^verbatim>\<open>V3client\<close> returns when it is called now (\<open>Get\<close>: an error or the values of
  \<^verbatim>\<open>resp.Kvs\<close>; \<open>Put\<close> and \<open>Delete\<close>: an error or none). The program never changes
  the field \<open>Etcd\<close>.
\<close>

record V3client =
  Get :: "string \<Rightarrow> error + string list"
  Put :: "string \<Rightarrow> string \<Rightarrow> error option"
  Delete :: "string \<Rightarrow> error option"

text \<open>
  \<open>Xip\<close>, with the package variable \<open>TxtKvCustomizations\<close> (the local key-value
  store) as one more field. The channel \<open>DnsAmplificationAttackDelay\<close> and the times
  \<open>Metrics.Start\<close> and \<open>BlocklistUpdated\<close> are left out.
\<close>

record Xip =
  Etcd :: "V3client option"
  Metrics :: Metrics
  BlocklistStrings :: "string list"
  BlocklistCDIRs :: "IPNet list"
  TxtKvCustomizations :: "string \<rightharpoonup> TXTResource list"

definition isEtcdNil :: "Xip \<Rightarrow> bool" where
  "isEtcdNil x = (Etcd x = None)"

record DomainCustomization =
  A :: "AResource list"
  AAAA :: "AAAAResource list"
  CNAME :: CNAMEResource
  MX :: "MXResource list"
  TXT :: "(Xip \<Rightarrow> IP \<Rightarrow> error + TXTResource list \<times> Xip) option"

type_synonym DomainCustomizations = "string \<rightharpoonup> DomainCustomization"

definition noCustomization :: DomainCustomization where
  \<comment> \<open>the zero value \<^verbatim>\<open>DomainCustomization{}\<close>\<close>
  "noCustomization = \<lparr>A = [], AAAA = [], CNAME = [], MX = [], TXT = None\<rparr>"

definition NameServers :: "NSResource list" where
  "NameServers = [''ns-aws.sslip.io.'', ''ns-azure.sslip.io.'', ''ns-gce.sslip.io.'']"

definition mbox :: Name where "mbox = ''briancunnie.gmail.com.''"
definition mx1 :: Name where "mx1 = ''mail.protonmail.ch.''"
definition mx2 :: Name where "mx2 = ''mailsec.protonmail.ch.''"
definition dkim1 :: Name where
  "dkim1 = ''protonmail.domainkey.dw4gykv5i2brtkjglrf34wf6kbxpa5hgtmg2xqopinhgxn5axo73a.domains.proton.ch.''"
definition dkim2 :: Name where
  "dkim2 = ''protonmail2.domainkey.dw4gykv5i2brtkjglrf34wf6kbxpa5hgtmg2xqopinhgxn5axo73a.domains.proton.ch.''"
definition dkim3 :: Name where
  "dkim3 = ''protonmail3.domainkey.dw4gykv5i2brtkjglrf34wf6kbxpa5hgtmg2xqopinhgxn5axo73a.domains.proton.ch.''"

definition VersionSemantic :: string where "VersionSemantic = ''0.0.0''"
definition VersionDate :: string where "VersionDate = ''0001/01/01-99:99:99-0800''"
definition VersionGitHash :: string where "VersionGitHash = ''cafexxx''"

definition versionTXT :: "Xip \<Rightarrow> IP \<Rightarrow> error + TXTResource list \<times> Xip" where
  "versionTXT x ip =
     Inr ([[VersionSemantic], [VersionDate], [VersionGitHash]],
          x\<lparr>Metrics := (Metrics x)\<lparr>AnsweredXTVersionQueries :=
                 AnsweredXTVersionQueries (Metrics x) + 1\<rparr>\<rparr>)"

definition sslipTXT :: "Xip \<Rightarrow> IP \<Rightarrow> error + TXTResource list \<times> Xip" where
  "sslipTXT x ip =
     Inr ([[''protonmail-verification=ce0ca3f5010aa7a2cf8bcc693778338ffde73e26''],
           [''v=spf1 include:_spf.protonmail.ch mx ~all'']], x)"

text \<open>
  The table \<open>Customizations\<close> as \<^verbatim>\<open>xip.go\<close> initialises it. It is a variable of the
  package (the tests add and delete entries), so the functions below take the table as
  their argument \<open>cz\<close>. The producers \<^verbatim>\<open>ipSslipIo\<close> and \<^verbatim>\<open>metricsSslipIo\<close> print an
  address, read the clock and wait on a channel; the table takes them as parameters.
\<close>

definition Customizations ::
  "(Xip \<Rightarrow> IP \<Rightarrow> error + TXTResource list \<times> Xip) \<Rightarrow>
   (Xip \<Rightarrow> IP \<Rightarrow> error + TXTResource list \<times> Xip) \<Rightarrow> DomainCustomizations" where
  "Customizations ipSslipIo metricsSslipIo = map_of [
     (''sslip.io.'',
        \<lparr>A = [[78, 46, 204, 247]],
         AAAA = [[42, 1, 4, 248, 12, 23, 11, 143, 0, 0, 0, 0, 0, 0, 0, 2]],
         CNAME = [],
         MX = [MXResource 10 mx1, MXResource 20 mx2],
         TXT = Some sslipTXT\<rparr>),
     (''ns.sslip.io.'',
        \<lparr>A = [[52, 0, 56, 137], [52, 187, 42, 158], [104, 155, 144, 4]],
         AAAA = [[0x26, 0, 0x1f, 0x18, 0x0a, 0xaf, 0x69, 0, 0, 0, 0, 0, 0, 0, 0, 0xa]],
         CNAME = [], MX = [], TXT = None\<rparr>),
     (''ns-aws.sslip.io.'',
        \<lparr>A = [[52, 0, 56, 137]],
         AAAA = [[0x26, 0, 0x1f, 0x18, 0x0a, 0xaf, 0x69, 0, 0, 0, 0, 0, 0, 0, 0, 0xa]],
         CNAME = [], MX = [], TXT = None\<rparr>),
     (''ns-azure.sslip.io.'', noCustomization\<lparr>A := [[52, 187, 42, 158]]\<rparr>),
     (''ns-gce.sslip.io.'', noCustomization\<lparr>A := [[104, 155, 144, 4]]\<rparr>),
     (''protonmail._domainkey.sslip.io.'', noCustomization\<lparr>CNAME := dkim1\<rparr>),
     (''protonmail2._domainkey.sslip.io.'', noCustomization\<lparr>CNAME := dkim2\<rparr>),
     (''protonmail3._domainkey.sslip.io.'', noCustomization\<lparr>CNAME := dkim3\<rparr>),
     (''ip.sslip.io.'', noCustomization\<lparr>TXT := Some ipSslipIo\<rparr>),
     (''version.status.sslip.io.'', noCustomization\<lparr>TXT := Some versionTXT\<rparr>),
     (''metrics.status.sslip.io.'', noCustomization\<lparr>TXT := Some metricsSslipIo\<rparr>)]"

section \<open>Names to addresses\<close>

text \<open>
  \<^verbatim>\<open>NameToA\<close>: a customised name returns its \<open>A\<close> records; any other name is tried
  against the pattern with dashes, then the one with dots, and the first pattern that
  matches decides.
\<close>

fun NameToA_patterns :: "re list \<Rightarrow> string \<Rightarrow> AResource list" where
  "NameToA_patterns [] fqdn = []"
| "NameToA_patterns (ipv4RE # res) fqdn =
     (if Match ipv4RE fqdn then
        (let match = Replace (FindSubmatch ipv4RE fqdn 2) CHR ''-'' CHR ''.'';
             ipv4address = To4 (ParseIP match)
         in if ipv4address = [] then []
            else [[ipv4address ! 0, ipv4address ! 1, ipv4address ! 2, ipv4address ! 3]])
      else NameToA_patterns res fqdn)"

definition NameToA :: "DomainCustomizations \<Rightarrow> string \<Rightarrow> AResource list" where
  "NameToA cz fqdnString =
     (case cz (ToLower fqdnString) of
        Some domain \<Rightarrow>
          if length (A domain) > 0 then A domain
          else NameToA_patterns [ipv4REDashes, ipv4REDots] fqdnString
      | None \<Rightarrow> NameToA_patterns [ipv4REDashes, ipv4REDots] fqdnString)"

text \<open>
  \<^verbatim>\<open>NameToAAAA\<close>. The call \<^verbatim>\<open>ipv6RE.Longest()\<close> comes before \<^verbatim>\<open>FindSubmatch\<close>, so
  the submatch is always that of the leftmost-longest match.
\<close>

definition NameToAAAA_pattern :: "string \<Rightarrow> AAAAResource list" where
  "NameToAAAA_pattern fqdn =
     (if \<not> Match ipv6RE fqdn then []
      else
        (let match = Replace (FindSubmatchLongest ipv6RE fqdn 2) CHR ''-'' CHR '':'';
             ipv16address = To16 (ParseIP match)
         in if ipv16address = [] then [] else [ipv16address]))"

definition NameToAAAA :: "DomainCustomizations \<Rightarrow> string \<Rightarrow> AAAAResource list" where
  "NameToAAAA cz fqdnString =
     (case cz (ToLower fqdnString) of
        Some domain \<Rightarrow>
          if length (AAAA domain) > 0 then AAAA domain else NameToAAAA_pattern fqdnString
      | None \<Rightarrow> NameToAAAA_pattern fqdnString)"

text \<open>\<^verbatim>\<open>CNAMEResource\<close>: the customised CNAME, or nil (\<open>None\<close>).\<close>

definition CNAMEResource :: "DomainCustomizations \<Rightarrow> string \<Rightarrow> CNAMEResource option" where
  "CNAMEResource cz fqdnString =
     (case cz (ToLower fqdnString) of
        Some domain \<Rightarrow> if CNAME domain \<noteq> [] then Some (CNAME domain) else None
      | None \<Rightarrow> None)"

definition MXResources :: "DomainCustomizations \<Rightarrow> string \<Rightarrow> MXResource list" where
  "MXResources cz fqdnString =
     (case cz (ToLower fqdnString) of
        Some domain \<Rightarrow>
          if length (MX domain) > 0 then MX domain
          else [MXResource 0 (NewName_ignoring_error fqdnString)]
      | None \<Rightarrow> [MXResource 0 (NewName_ignoring_error fqdnString)])"

definition IsAcmeChallenge :: "DomainCustomizations \<Rightarrow> string \<Rightarrow> bool" where
  "IsAcmeChallenge cz fqdnString =
     (if Match dns01ChallengeRE fqdnString then
        (let ipv4s = NameToA cz fqdnString; ipv6s = NameToAAAA cz fqdnString
         in length ipv4s > 0 \<or> length ipv6s > 0)
      else False)"

section \<open>The blocklist\<close>

text \<open>The address \<^verbatim>\<open>blocklist\<close> looks at: the only AAAA record of the name, else its
  only A record, else nil.\<close>

definition blocklistIP :: "DomainCustomizations \<Rightarrow> string \<Rightarrow> IP" where
  "blocklistIP cz hostname =
     (let aResources = NameToA cz hostname;
          aaaaResources = NameToAAAA cz hostname;
          ip = (if length aResources = 1 then aResources ! 0 else [])
      in if length aaaaResources = 1 then aaaaResources ! 0 else ip)"

definition blocklist :: "DomainCustomizations \<Rightarrow> Xip \<Rightarrow> string \<Rightarrow> bool" where
  "blocklist cz x hostname =
     (let aResources = NameToA cz hostname;
          aaaaResources = NameToAAAA cz hostname;
          ip = blocklistIP cz hostname
      in if length aResources = 0 \<and> length aaaaResources = 0 then False
         else if IsPrivate ip then False
         else if list_ex (\<lambda>blockstring. Contains hostname blockstring) (BlocklistStrings x)
           then True
         else if list_ex (\<lambda>blockCDIR. IPNet_Contains blockCDIR ip) (BlocklistCDIRs x)
           then True
         else False)"

text \<open>
  \<^verbatim>\<open>ParseCIDR\<close> of package \<^verbatim>\<open>net\<close>, with \<^verbatim>\<open>CIDRMask\<close> and \<^verbatim>\<open>IP.Mask\<close>.
\<close>

fun CIDRMask_bytes :: "nat \<Rightarrow> nat \<Rightarrow> byte list" where
  "CIDRMask_bytes 0 n = []"
| "CIDRMask_bytes (Suc l) n =
     (if n \<ge> 8 then 0xff # CIDRMask_bytes l (n - 8)
      else (NOT (drop_bit n (0xff :: byte))) # CIDRMask_bytes l 0)"

definition CIDRMask :: "nat \<Rightarrow> nat \<Rightarrow> byte list" where
  "CIDRMask ones bits =
     (if bits \<noteq> 32 \<and> bits \<noteq> 128 then []
      else if ones > bits then []
      else CIDRMask_bytes (bits div 8) ones)"

definition IP_Mask :: "IP \<Rightarrow> byte list \<Rightarrow> IP" where
  "IP_Mask ip0 mask0 =
     (let mask = (if length mask0 = 16 \<and> length ip0 = 4 \<and> take 12 mask0 = replicate 12 0xff
                  then drop 12 mask0 else mask0);
          ip = (if length mask = 4 \<and> length ip0 = 16 \<and> take 12 ip0 = v4InV6Prefix
                then drop 12 ip0 else ip0)
      in if length ip \<noteq> length mask then []
         else map (\<lambda>(a, m). a AND m) (zip ip mask))"

definition ParseCIDR :: "string \<Rightarrow> IPNet option" where
  "ParseCIDR s =
     (if CHR ''/'' \<notin> set s then None
      else
        (let addr = takeWhile (\<lambda>c. c \<noteq> CHR ''/'') s;
             mask = drop 1 (dropWhile (\<lambda>c. c \<noteq> CHR ''/'') s);
             ip4 = parseIPv4 addr;
             iplen = (if ip4 = [] then 16 else 4 :: nat);
             ip = (if ip4 = [] then parseIPv6 addr else ip4)
         in case dtoi mask of
              (n, i, ok) \<Rightarrow>
                if ip = [] \<or> \<not> ok \<or> i \<noteq> length mask \<or> n < 0 \<or> n > int (8 * iplen) then None
                else (let m = CIDRMask (nat n) (8 * iplen)
                      in Some \<lparr>IP = IP_Mask ip m, Mask = m\<rparr>)))"

text \<open>
  \<^verbatim>\<open>ReadBlocklist\<close>. Its reader is modelled by what the \<^verbatim>\<open>bufio.Scanner\<close> makes of
  it: the lines, and the error the scanner ends with, if any. Replacing every match of
  \<^verbatim>\<open>#.*\<close> by nothing cuts a line at its first \<^verbatim>\<open>#\<close>; replacing every match of a
  negated class by nothing keeps the bytes of the class.
\<close>

definition stripComments :: "string \<Rightarrow> string" where
  "stripComments line = takeWhile (\<lambda>c. c \<noteq> CHR ''#'') line"

definition dnsChars :: "char list" where
  \<comment> \<open>\<^verbatim>\<open>[-_0-9a-z]\<close>\<close>
  "dnsChars = ''-_0123456789abcdefghijklmnopqrstuvwxyz''"

definition stripInvalidDNSchars :: "string \<Rightarrow> string" where
  "stripInvalidDNSchars line = filter (\<lambda>c. c \<in> set dnsChars) line"

definition stripInvalidDNScharsWithSlashesDotsAndColons :: "string \<Rightarrow> string" where
  "stripInvalidDNScharsWithSlashesDotsAndColons line =
     filter (\<lambda>c. c \<in> set (dnsChars @ ''/.:'')) line"

fun ReadBlocklist_lines :: "string list \<Rightarrow> string list \<times> IPNet list" where
  "ReadBlocklist_lines [] = ([], [])"
| "ReadBlocklist_lines (l # ls) =
     (let line = stripInvalidDNScharsWithSlashesDotsAndColons (stripComments (ToLower l));
          (stringBlocklists, cidrBlocklists) = ReadBlocklist_lines ls
      in case ParseCIDR line of
           None \<Rightarrow>
             (let line' = stripInvalidDNSchars line
              in if line' = [] then (stringBlocklists, cidrBlocklists)
                 else (line' # stringBlocklists, cidrBlocklists))
         | Some ipcidr \<Rightarrow> (stringBlocklists, ipcidr # cidrBlocklists))"

definition ReadBlocklist :: "string list \<Rightarrow> error option \<Rightarrow> error + (string list \<times> IPNet list)" where
  "ReadBlocklist scanned scanErr =
     (case scanErr of
        Some err \<Rightarrow> Inl err
      | None \<Rightarrow> Inr (ReadBlocklist_lines scanned))"

section \<open>Name servers, SOA and the key-value store\<close>

text \<open>
  \<^verbatim>\<open>ReplaceAllString(s, "")\<close> for a pattern that matches no empty string: at each
  place the match found first is cut out, and the search goes on behind it.
\<close>

function ReplaceAllEmpty :: "re \<Rightarrow> nat \<Rightarrow> string \<Rightarrow> string" where
  "ReplaceAllEmpty r p [] = []"
| "ReplaceAllEmpty r p (x # xs) =
     (case run r (p, x # xs, []) of
        [] \<Rightarrow> x # ReplaceAllEmpty r (Suc p) xs
      | (q, t, c) # ms \<Rightarrow>
          if q > p then ReplaceAllEmpty r q (drop (q - p) (x # xs))
          else x # ReplaceAllEmpty r (Suc p) xs)"
  by pat_completeness auto
termination
  by (relation "measure (\<lambda>(r, p, s). length s)") auto

definition incAnsweredQueries :: "Xip \<Rightarrow> Xip" where
  "incAnsweredQueries x =
     x\<lparr>Metrics := (Metrics x)\<lparr>AnsweredQueries := AnsweredQueries (Metrics x) + 1\<rparr>\<rparr>"

definition incAnsweredAQueries :: "Xip \<Rightarrow> Xip" where
  "incAnsweredAQueries x =
     x\<lparr>Metrics := (Metrics x)\<lparr>AnsweredAQueries := AnsweredAQueries (Metrics x) + 1\<rparr>\<rparr>"

definition incAnsweredAAAAQueries :: "Xip \<Rightarrow> Xip" where
  "incAnsweredAAAAQueries x =
     x\<lparr>Metrics := (Metrics x)\<lparr>AnsweredAAAAQueries := AnsweredAAAAQueries (Metrics x) + 1\<rparr>\<rparr>"

definition incAnsweredNSDNS01ChallengeQueries :: "Xip \<Rightarrow> Xip" where
  "incAnsweredNSDNS01ChallengeQueries x =
     x\<lparr>Metrics := (Metrics x)\<lparr>AnsweredNSDNS01ChallengeQueries :=
          AnsweredNSDNS01ChallengeQueries (Metrics x) + 1\<rparr>\<rparr>"

definition incAnsweredBlockedQueries :: "Xip \<Rightarrow> Xip" where
  "incAnsweredBlockedQueries x =
     x\<lparr>Metrics := (Metrics x)\<lparr>AnsweredBlockedQueries :=
          AnsweredBlockedQueries (Metrics x) + 1\<rparr>\<rparr>"

definition NSResources :: "DomainCustomizations \<Rightarrow> Xip \<Rightarrow> string \<Rightarrow> NSResource list \<times> Xip" where
  "NSResources cz x fqdnString =
     (if blocklist cz x fqdnString then
        (NameServers, incAnsweredBlockedQueries (incAnsweredQueries x))
      else if IsAcmeChallenge cz fqdnString then
        (let strippedFqdn = ReplaceAllEmpty dns01ChallengeRE 0 fqdnString;
             ns = NewName_ignoring_error strippedFqdn
         in ([ns], incAnsweredNSDNS01ChallengeQueries x))
      else (NameServers, incAnsweredQueries x))"

definition SOAResource :: "Name \<Rightarrow> SOAResource" where
  "SOAResource name =
     \<lparr>NS = name, MBox = mbox, Serial = 2022020800,
      Refresh = 900, Retry = 900, Expire = 1800, MinTTL = 180\<rparr>"

definition rrHeader :: "Name \<Rightarrow> Type \<Rightarrow> 32 word \<Rightarrow> ResourceHeader" where
  "rrHeader name ty ttl = \<lparr>Name = name, Type = ty, Class = ClassINET, TTL = ttl, Length = 0\<rparr>"

definition SOAAuthority :: "Name \<Rightarrow> ResourceHeader \<times> SOAResource" where
  "SOAAuthority name = (rrHeader name TypeSOA 604800, SOAResource name)"

definition getKv :: "Xip \<Rightarrow> string \<Rightarrow> error + TXTResource list \<times> Xip" where
  "getKv x key =
     (case Etcd x of
        None \<Rightarrow>
          (case TxtKvCustomizations x key of
             Some txtRecord \<Rightarrow> Inr (txtRecord, x)
           | None \<Rightarrow> Inr ([], x))
      | Some etcd \<Rightarrow>
          (case Get etcd key of
             Inl err \<Rightarrow> Inl (CouldntGET key err)
           | Inr kvs \<Rightarrow>
               (case kvs of v # vs \<Rightarrow> Inr ([[v]], x) | [] \<Rightarrow> Inr ([], x))))"

definition putKv :: "Xip \<Rightarrow> string \<Rightarrow> string \<Rightarrow> error + TXTResource list \<times> Xip" where
  "putKv x key value0 =
     (let val = (if length value0 > 63 then take 63 value0 else value0)
      in case Etcd x of
           None \<Rightarrow>
             (let x' = x\<lparr>TxtKvCustomizations := (TxtKvCustomizations x)(key \<mapsto> [[val]])\<rparr>
              in Inr ([[val]], x'))
         | Some etcd \<Rightarrow>
             (case Put etcd key val of
                Some err \<Rightarrow> Inl (CouldntPUT key val err)
              | None \<Rightarrow> Inr ([[val]], x)))"

definition deleteKv :: "Xip \<Rightarrow> string \<Rightarrow> error + TXTResource list \<times> Xip" where
  "deleteKv x key =
     (case Etcd x of
        None \<Rightarrow> Inr ([], x\<lparr>TxtKvCustomizations := (TxtKvCustomizations x)(key := None)\<rparr>)
      | Some etcd \<Rightarrow>
          (case Delete etcd key of
             Some err \<Rightarrow> Inl (CouldntDELETE key err)
           | None \<Rightarrow> Inr ([], x)))"

text \<open>
  \<^verbatim>\<open>kvTXTResources\<close>. Slicing off the last three labels panics when there are fewer
  than three, and so does reading the last label of none.
\<close>

definition kvTXTResources :: "Xip \<Rightarrow> string \<Rightarrow> error + TXTResource list \<times> Xip" where
  "kvTXTResources x fqdn =
     (let labels0 = Split fqdn CHR ''.''
      in if length labels0 < 3 then Inl Panic
         else
           (let labels = take (length labels0 - 3) labels0
            in if labels = [] then Inl Panic
               else
                 (let key = ToLower (last labels);
                      verb = (if length labels = 1 then ''get'' else ToLower (labels ! 0));
                      val = (if length labels > 2
                             then Join (take (length labels - 2) (drop 1 labels)) CHR ''.''
                             else [])
                  in if verb = ''get'' then getKv x key
                     else if verb = ''put'' then
                       (if length labels = 2
                        then Inr ([[''422: missing a value: put.value.key.k-v.io'']], x)
                        else putKv x key val)
                     else if verb = ''delete'' then deleteKv x key
                     else Inr ([[''422: valid verbs are get, put, delete'']], x))))"

definition TXTResources ::
  "DomainCustomizations \<Rightarrow> Xip \<Rightarrow> string \<Rightarrow> IP \<Rightarrow> error + TXTResource list \<times> Xip" where
  "TXTResources cz x fqdn ip =
     (if Match kvRE fqdn then kvTXTResources x fqdn
      else
        (case cz (ToLower fqdn) of
           Some domain \<Rightarrow>
             (case TXT domain of
                Some producer \<Rightarrow> producer x ip
              | None \<Rightarrow> Inr ([], x))
         | None \<Rightarrow> Inr ([], x)))"

section \<open>Questions\<close>

text \<open>
  \<^verbatim>\<open>processQuestion\<close> and its helpers return the response and the state of the
  server; the log message they also return is left out. Taking element 0 of the
  \<open>A\<close> or \<open>AAAA\<close> records of \<^verbatim>\<open>ns-aws.sslip.io.\<close> panics when the table has none.
\<close>

definition addAnswers :: "bcall list \<Rightarrow> Response \<Rightarrow> Response" where
  "addAnswers f response = response\<lparr>Answers := Answers response @ [f]\<rparr>"

definition addAuthorities :: "bcall list \<Rightarrow> Response \<Rightarrow> Response" where
  "addAuthorities f response = response\<lparr>Authorities := Authorities response @ [f]\<rparr>"

definition addAdditionals :: "bcall list \<Rightarrow> Response \<Rightarrow> Response" where
  "addAdditionals f response = response\<lparr>Additionals := Additionals response @ [f]\<rparr>"

definition setAuthoritative :: "bool \<Rightarrow> Response \<Rightarrow> Response" where
  "setAuthoritative b response = response\<lparr>Header := (Header response)\<lparr>Authoritative := b\<rparr>\<rparr>"

definition setRCode :: "RCode \<Rightarrow> Response \<Rightarrow> Response" where
  "setRCode rc response = response\<lparr>Header := (Header response)\<lparr>RCode := rc\<rparr>\<rparr>"

definition NSResponse :: "DomainCustomizations \<Rightarrow> Xip \<Rightarrow> Name \<Rightarrow> Response \<Rightarrow> Response \<times> Xip" where
  "NSResponse cz x name response =
     (case NSResources cz x name of
        (nameServers, x') \<Rightarrow>
          (let records = map (\<lambda>nameServer. B_NS (rrHeader name TypeNS 604800) nameServer) nameServers;
               response' = (if Authoritative (Header response) then addAnswers records response
                            else addAuthorities records response);
               glue = concat (map (\<lambda>nameServer.
                        map (\<lambda>aResource. B_A (rrHeader nameServer TypeA 604800) aResource)
                            (NameToA cz nameServer) @
                        map (\<lambda>aaaaResource. B_AAAA (rrHeader nameServer TypeAAAA 604800) aaaaResource)
                            (NameToAAAA cz nameServer)) nameServers)
           in (addAdditionals glue response', x')))"

definition soaAuthorityOnly :: "Name \<Rightarrow> Response \<Rightarrow> Response" where
  \<comment> \<open>no answers, one SOA in the authorities\<close>
  "soaAuthorityOnly name response =
     (case SOAAuthority name of
        (soaHeader, soaResource) \<Rightarrow> addAuthorities [B_SOA soaHeader soaResource] response)"

definition nameToAwithBlocklist ::
  "DomainCustomizations \<Rightarrow> Xip \<Rightarrow> Question \<Rightarrow> Response \<Rightarrow> error + Response \<times> Xip" where
  "nameToAwithBlocklist cz x q response =
     (let nameToAs = NameToA cz (qName q)
      in if length nameToAs = 0 then Inr (soaAuthorityOnly (qName q) response, x)
         else if blocklist cz x (qName q) then
           (let x' = incAnsweredBlockedQueries (incAnsweredQueries x)
            in case cz ''ns-aws.sslip.io.'' of
                 None \<Rightarrow> Inl Panic
               | Some sink \<Rightarrow>
                   (case A sink of
                      [] \<Rightarrow> Inl Panic
                    | a # as \<Rightarrow>
                        Inr (addAnswers [B_A (rrHeader (qName q) TypeA 604800) a] response, x')))
         else
           Inr (addAnswers (map (\<lambda>nameToA. B_A (rrHeader (qName q) TypeA 604800) nameToA) nameToAs)
                  response,
                incAnsweredAQueries (incAnsweredQueries x)))"

text \<open>The header of the sink record says \<open>TypeA\<close> in the source, also for an AAAA.\<close>

definition nameToAAAAwithBlocklist ::
  "DomainCustomizations \<Rightarrow> Xip \<Rightarrow> Question \<Rightarrow> Response \<Rightarrow> error + Response \<times> Xip" where
  "nameToAAAAwithBlocklist cz x q response =
     (let nameToAAAAs = NameToAAAA cz (qName q)
      in if length nameToAAAAs = 0 then Inr (soaAuthorityOnly (qName q) response, x)
         else if blocklist cz x (qName q) then
           (let x' = incAnsweredBlockedQueries (incAnsweredQueries x)
            in case cz ''ns-aws.sslip.io.'' of
                 None \<Rightarrow> Inl Panic
               | Some sink \<Rightarrow>
                   (case AAAA sink of
                      [] \<Rightarrow> Inl Panic
                    | a # as \<Rightarrow>
                        Inr (addAnswers [B_AAAA (rrHeader (qName q) TypeA 604800) a] response, x')))
         else
           Inr (addAnswers
                  (map (\<lambda>nameToAAAA. B_AAAA (rrHeader (qName q) TypeAAAA 604800) nameToAAAA)
                     nameToAAAAs)
                  response,
                incAnsweredAAAAQueries (incAnsweredQueries x)))"

definition newResponse :: Response where
  "newResponse =
     \<lparr>Header = \<lparr>ID = 0, Response = True, OpCode = 0, Authoritative = True, Truncated = False,
                RecursionDesired = False, RecursionAvailable = False, RCode = RCodeSuccess\<rparr>,
      Answers = [], Authorities = [], Additionals = []\<rparr>"

definition processTXT ::
  "DomainCustomizations \<Rightarrow> Xip \<Rightarrow> Question \<Rightarrow> IP \<Rightarrow> Response \<Rightarrow> error + Response \<times> Xip" where
  "processTXT cz x q srcAddr response =
     (if IsAcmeChallenge cz (qName q) then
        (case NSResources cz x (qName q) of
           (nameServers, x') \<Rightarrow>
             Inr (foldl (\<lambda>resp nameServer.
                           addAuthorities [B_NS (rrHeader (qName q) TypeNS 604800) nameServer] resp)
                    (setAuthoritative False response) nameServers,
                  x'))
      else
        (case TXTResources cz x (qName q) srcAddr of
           Inl err \<Rightarrow> Inl err
         | Inr (txts, x') \<Rightarrow>
             Inr (addAnswers (map (\<lambda>txt. B_TXT (rrHeader (qName q) TypeTXT 180) txt) txts) response,
                  if length txts > 0 then incAnsweredQueries x' else x')))"

definition processQuestion ::
  "DomainCustomizations \<Rightarrow> Xip \<Rightarrow> Question \<Rightarrow> IP \<Rightarrow> error + Response \<times> Xip" where
  "processQuestion cz x q srcAddr =
     (let response = newResponse
      in if IsAcmeChallenge cz (qName q) \<and> \<not> blocklist cz x (qName q) then
           Inr (NSResponse cz x (qName q) (setAuthoritative False response))
         else if qType q = TypeA then nameToAwithBlocklist cz x q response
         else if qType q = TypeAAAA then nameToAAAAwithBlocklist cz x q response
         else if qType q = TypeALL then Inr (setRCode RCodeNotImplemented response, x)
         else if qType q = TypeCNAME then
           (case CNAMEResource cz (qName q) of
              None \<Rightarrow> Inr (soaAuthorityOnly (qName q) response, x)
            | Some cname \<Rightarrow>
                Inr (addAnswers [B_CNAME (rrHeader (qName q) TypeCNAME 604800) cname] response,
                     incAnsweredQueries x))
         else if qType q = TypeMX then
           (let mailExchangers = MXResources cz (qName q)
            in if length mailExchangers = 0 then Inl NoMXRecords
               else
                 Inr (addAnswers
                        (map (\<lambda>mailExchanger. B_MX (rrHeader (qName q) TypeMX 604800) mailExchanger)
                           mailExchangers)
                        response,
                      incAnsweredQueries x))
         else if qType q = TypeNS then Inr (NSResponse cz x (qName q) response)
         else if qType q = TypeSOA then
           Inr (addAnswers [B_SOA (rrHeader (qName q) TypeSOA 604800) (SOAResource (qName q))]
                  response,
                incAnsweredQueries x)
         else if qType q = TypeTXT then processTXT cz x q srcAddr response
         else Inr (soaAuthorityOnly (qName q) response, x))"

section \<open>Notions used to state the properties\<close>

text \<open>
  The server as \<^verbatim>\<open>NewXip\<close> leaves it when no etcd answers and before a blocklist
  has been read: the local key-value store, all counters zero.
\<close>

definition newXip :: Xip where
  "newXip =
     \<lparr>Etcd = None,
      Metrics = \<lparr>Queries = 0, AnsweredQueries = 0, AnsweredAQueries = 0, AnsweredAAAAQueries = 0,
                 AnsweredTXTSrcIPQueries = 0, AnsweredXTVersionQueries = 0,
                 AnsweredNSDNS01ChallengeQueries = 0, AnsweredBlockedQueries = 0\<rparr>,
      BlocklistStrings = [], BlocklistCDIRs = [], TxtKvCustomizations = Map.empty\<rparr>"

text \<open>
  The closed examples below need a closed table: there the two producers that
  \<open>Customizations\<close> takes as parameters are one that returns no record. No example asks
  for the TXT records of \<^verbatim>\<open>ip.sslip.io.\<close> or \<^verbatim>\<open>metrics.status.sslip.io.\<close>
\<close>

definition exampleTXT :: "Xip \<Rightarrow> IP \<Rightarrow> error + TXTResource list \<times> Xip" where
  "exampleTXT x ip = Inr ([], x)"

definition Customizations0 :: DomainCustomizations where
  "Customizations0 = Customizations exampleTXT exampleTXT"

text \<open>An etcd client none of whose calls gets an answer in time.\<close>

definition failingEtcd :: V3client where
  "failingEtcd =
     \<lparr>Get = (\<lambda>key. Inl (EtcdError ''context deadline exceeded'')),
      Put = (\<lambda>key v. Some (EtcdError ''context deadline exceeded'')),
      Delete = (\<lambda>key. Some (EtcdError ''context deadline exceeded''))\<rparr>"

text \<open>
  The private networks of RFC 1918 and the unique local addresses of RFC 4193, as
  networks in the sense of \<open>IPNet_Contains\<close>.
\<close>

definition privateNets :: "IPNet list" where
  "privateNets =
     [\<lparr>IP = [10, 0, 0, 0], Mask = [255, 0, 0, 0]\<rparr>,
      \<lparr>IP = [172, 16, 0, 0], Mask = [255, 240, 0, 0]\<rparr>,
      \<lparr>IP = [192, 168, 0, 0], Mask = [255, 255, 0, 0]\<rparr>,
      \<lparr>IP = [0xfc, 0, 0, 0, 0, 0, 0, 0, 0, 0, 0, 0, 0, 0, 0, 0],
       Mask = [0xfe, 0, 0, 0, 0, 0, 0, 0, 0, 0, 0, 0, 0, 0, 0, 0]\<rparr>]"

text \<open>A server whose blocklist is the one substring \<^verbatim>\<open>raiffeisen\<close>.\<close>

definition exampleBlocklist :: Xip where
  "exampleBlocklist = newXip\<lparr>BlocklistStrings := [''raiffeisen'']\<rparr>"

text \<open>
  An ASCII capital letter; and a hostname in which every occurrence of \<open>b\<close>, letter
  case ignored, has a capital letter.
\<close>

definition isUpper :: "char \<Rightarrow> bool" where
  "isUpper c = (65 \<le> (of_char c :: int) \<and> (of_char c :: int) \<le> 90)"

definition onlyUppercased :: "string \<Rightarrow> string \<Rightarrow> bool" where
  "onlyUppercased hostname b =
     list_all (\<lambda>i. ToLower (take (length b) (drop i hostname)) = b
                    \<longrightarrow> list_ex isUpper (take (length b) (drop i hostname)))
       [0..<Suc (length hostname)]"

text \<open>
  The strings a pattern can consume, capture groups ignored; and the patterns without
  a capture group.
\<close>

fun lang :: "re \<Rightarrow> string set" where
  "lang (Cls cs) = {[x] | x. x \<in> set cs}"
| "lang Bol = {[]}"
| "lang Eol = {[]}"
| "lang Eps = {[]}"
| "lang (Seq a b) = {u @ v | u v. u \<in> lang a \<and> v \<in> lang b}"
| "lang (Alt a b) = lang a \<union> lang b"
| "lang (Opt a) = insert [] (lang a)"
| "lang (StarC cs) = {w. set w \<subseteq> set cs}"
| "lang (Grp n a) = lang a"

fun nogrp :: "re \<Rightarrow> bool" where
  "nogrp (Seq a b) = (nogrp a \<and> nogrp b)"
| "nogrp (Alt a b) = (nogrp a \<and> nogrp b)"
| "nogrp (Opt a) = nogrp a"
| "nogrp (Grp n a) = False"
| "nogrp r = True"

text \<open>
  The pattern \<open>r\<close> matches \<open>s\<close> from offset \<open>p\<close>; it does so and from no earlier
  offset; and it matches from no offset at all.
\<close>

definition matchesAt :: "re \<Rightarrow> string \<Rightarrow> nat \<Rightarrow> bool" where
  "matchesAt r s p = (p \<le> length s \<and> run r (p, drop p s, []) \<noteq> [])"

definition leftmostAt :: "re \<Rightarrow> string \<Rightarrow> nat \<Rightarrow> bool" where
  "leftmostAt r s p = (matchesAt r s p \<and> list_all (\<lambda>j. \<not> matchesAt r s j) [0..<p])"

definition noMatch :: "re \<Rightarrow> string \<Rightarrow> bool" where
  "noMatch r s = list_all (\<lambda>j. \<not> matchesAt r s j) [0..<Suc (length s)]"

text \<open>
  The literal (capture group 2) of the match of \<open>r\<close> from offset \<open>p\<close>: of the first
  match in the order of preference, and of the longest one.
\<close>

definition literalAt :: "re \<Rightarrow> string \<Rightarrow> nat \<Rightarrow> string" where
  "literalAt r s p = (case run r (p, drop p s, []) of [] \<Rightarrow> [] | (q, t, c) # ms \<Rightarrow> group 2 c)"

definition longestLiteralAt :: "re \<Rightarrow> string \<Rightarrow> nat \<Rightarrow> string" where
  "longestLiteralAt r s p =
     (case run r (p, drop p s, []) of
        [] \<Rightarrow> []
      | m # ms \<Rightarrow> (case longest m ms of (q, t, c) \<Rightarrow> group 2 c))"

text \<open>
  The records that \<open>NameToA\<close> and \<open>NameToAAAA\<close> make of a literal: dashes replaced,
  the result parsed, no record when it does not parse.
\<close>

definition aRecords :: "string \<Rightarrow> AResource list" where
  "aRecords literal =
     (let ipv4address = To4 (ParseIP (Replace literal CHR ''-'' CHR ''.''))
      in if ipv4address = [] then []
         else [[ipv4address ! 0, ipv4address ! 1, ipv4address ! 2, ipv4address ! 3]])"

definition aaaaRecords :: "string \<Rightarrow> AAAAResource list" where
  "aaaaRecords literal =
     (let ipv16address = To16 (ParseIP (Replace literal CHR ''-'' CHR '':''))
      in if ipv16address = [] then [] else [ipv16address])"

text \<open>
  The number a string of decimal digits denotes; an octet as the IPv4 patterns accept
  it, one to three digits of value at most 255; an octet of several digits that starts
  with a zero.
\<close>

definition decimal :: "string \<Rightarrow> int" where
  "decimal s = foldl (\<lambda>n c. n * 10 + digitVal c) 0 s"

definition octetString :: "string \<Rightarrow> bool" where
  "octetString w = (w \<noteq> [] \<and> length w \<le> 3 \<and> list_all isDigit w \<and> decimal w \<le> 255)"

definition leadingZero :: "string \<Rightarrow> bool" where
  "leadingZero w = (length w > 1 \<and> take 1 w = ''0'')"

text \<open>
  The literal \<open>NameToA\<close> takes from a name, dashed pattern first, and the separator of
  that pattern.
\<close>

definition ipv4Literal :: "string \<Rightarrow> string" where
  "ipv4Literal fqdn =
     (if Match ipv4REDashes fqdn then FindSubmatch ipv4REDashes fqdn 2
      else FindSubmatch ipv4REDots fqdn 2)"

definition ipv4Separator :: "string \<Rightarrow> char" where
  "ipv4Separator fqdn = (if Match ipv4REDashes fqdn then CHR ''-'' else CHR ''.'')"

section \<open>Lemmas\<close>

lemma types_distinct:
  "TypeA \<noteq> TypeAAAA" "TypeAAAA \<noteq> TypeA" "TypeMX \<noteq> TypeA" "TypeMX \<noteq> TypeAAAA" "TypeMX \<noteq> TypeALL"
  "TypeMX \<noteq> TypeCNAME" "TypeTXT \<noteq> TypeA" "TypeTXT \<noteq> TypeAAAA" "TypeTXT \<noteq> TypeALL" "TypeTXT \<noteq> TypeCNAME"
  "TypeTXT \<noteq> TypeMX" "TypeTXT \<noteq> TypeNS" "TypeTXT \<noteq> TypeSOA" "TypeNS \<noteq> TypeA"
  by (simp_all add: TypeA_def TypeAAAA_def TypeMX_def TypeALL_def TypeCNAME_def TypeTXT_def
      TypeNS_def TypeSOA_def)

lemma written_single [simp]: "written [[c]] = [build c]"
  by (simp add: written_def)

lemma sink_lookup:
  "Customizations f g ''ns-aws.sslip.io.'' =
   Some \<lparr>A = [[52, 0, 56, 137]],
         AAAA = [[0x26, 0, 0x1f, 0x18, 0x0a, 0xaf, 0x69, 0, 0, 0, 0, 0, 0, 0, 0, 0xa]],
         CNAME = [], MX = [], TXT = None\<rparr>"
  by (simp add: Customizations_def)

lemma MXResources_nonempty: "MXResources cz fqdn \<noteq> []"
  by (simp add: MXResources_def split: option.splits)

subsection \<open>Splitting and joining\<close>

lemma Split_nonempty [simp]: "Split s sep \<noteq> []"
  by (induction s) (auto split: list.splits)

lemma Split_append: "Split (u @ sep # r) sep = Split u sep @ Split r sep"
proof (induction u)
  case Nil
  then show ?case by simp
next
  case (Cons c cs)
  show ?case
  proof (cases "c = sep")
    case True
    then show ?thesis using Cons by simp
  next
    case False
    obtain f fs where f: "Split cs sep = f # fs"
      using Split_nonempty [of cs sep] by (cases "Split cs sep") auto
    show ?thesis using False Cons f by simp
  qed
qed

lemma Split_nosep: "sep \<notin> set u \<Longrightarrow> Split u sep = [u]"
  by (induction u) auto

lemma Join_Split: "Join (Split v sep) sep = v"
proof (induction v)
  case Nil
  then show ?case by simp
next
  case (Cons c cs)
  obtain f fs where f: "Split cs sep = f # fs"
    using Split_nonempty [of cs sep] by (cases "Split cs sep") auto
  show ?case
  proof (cases "c = sep")
    case True
    then show ?thesis using Cons f by simp
  next
    case False
    then show ?thesis using Cons f by (cases fs) auto
  qed
qed

lemma Split_Join:
  "ls \<noteq> [] \<Longrightarrow> \<forall>l \<in> set ls. sep \<notin> set l \<Longrightarrow> Split (Join ls sep) sep = ls"
proof (induction ls sep rule: Join.induct)
  case (1 sep)
  then show ?case by simp
next
  case (2 f sep)
  then show ?case by (simp add: Split_nosep)
next
  case (3 f g fs sep)
  then show ?case by (simp add: Split_append Split_nosep)
qed

subsection \<open>Searching\<close>

lemma search_None_iff:
  "search r p s = None \<longleftrightarrow> (\<forall>k \<le> length s. run r (p + k, drop k s, []) = [])"
proof (induction s arbitrary: p)
  case Nil
  then show ?case by (simp split: list.splits)
next
  case (Cons x xs)
  have "(\<forall>k \<le> length (x # xs). run r (p + k, drop k (x # xs), []) = []) \<longleftrightarrow>
        run r (p, x # xs, []) = [] \<and> (\<forall>k \<le> length xs. run r (Suc p + k, drop k xs, []) = [])"
    (is "?L \<longleftrightarrow> ?R")
  proof
    assume l: ?L
    have "run r (p, x # xs, []) = []" using l [rule_format, of 0] by simp
    moreover have "\<forall>k \<le> length xs. run r (Suc p + k, drop k xs, []) = []"
    proof (intro allI impI)
      fix k assume "k \<le> length xs"
      then show "run r (Suc p + k, drop k xs, []) = []"
        using l [rule_format, of "Suc k"] by simp
    qed
    ultimately show ?R by simp
  next
    assume r: ?R
    show ?L
    proof (intro allI impI)
      fix k assume k: "k \<le> length (x # xs)"
      show "run r (p + k, drop k (x # xs), []) = []"
      proof (cases k)
        case 0
        then show ?thesis using r by simp
      next
        case (Suc j)
        then show ?thesis using r k by simp
      qed
    qed
  qed
  then show ?case using Cons [of "Suc p"] by (simp split: list.splits)
qed

lemma Match_iff: "Match r s \<longleftrightarrow> (\<exists>k \<le> length s. run r (k, drop k s, []) \<noteq> [])"
  using search_None_iff [of r 0 s] by (auto simp add: Match_def)

lemma run_kvRE: "run kvRE (k, ''.k-v.io.'', []) \<noteq> []"
  by (simp add: kvRE_def lit_def)

lemma Match_kvRE: "Match kvRE (u @ ''.k-v.io.'')"
  unfolding Match_iff
  by (rule exI [of _ "length u"]) (simp add: run_kvRE)

subsection \<open>The key-value store\<close>

lemma Split_kv_tail: "Split (u @ ''.k-v.io.'') CHR ''.'' = Split u CHR ''.'' @ [''k-v'', ''io'', []]"
proof -
  have "u @ ''.k-v.io.'' = u @ CHR ''.'' # ''k-v.io.''" by simp
  moreover have "Split ''k-v.io.'' CHR ''.'' = [''k-v'', ''io'', []]" by simp
  ultimately show ?thesis by (simp only: Split_append)
qed

text \<open>What \<open>kvTXTResources\<close> does with the labels in front of \<^verbatim>\<open>.k-v.io.\<close>\<close>

lemma kv_dispatch:
  "kvTXTResources x (u @ ''.k-v.io.'') =
     (let ls = Split u CHR ''.'';
          key = ToLower (last ls);
          verb = (if length ls = 1 then ''get'' else ToLower (ls ! 0));
          val = (if length ls > 2 then Join (take (length ls - 2) (drop 1 ls)) CHR ''.'' else [])
      in if verb = ''get'' then getKv x key
         else if verb = ''put'' then
           (if length ls = 2 then Inr ([[''422: missing a value: put.value.key.k-v.io'']], x)
            else putKv x key val)
         else if verb = ''delete'' then deleteKv x key
         else Inr ([[''422: valid verbs are get, put, delete'']], x))"
  by (simp add: kvTXTResources_def Split_kv_tail Let_def)

lemma lower_verbs: "ToLower ''put'' = ''put''" "ToLower ''delete'' = ''delete''" "ToLower ''get'' = ''get''"
  by code_simp+

lemma kv_get:
  assumes "CHR ''.'' \<notin> set K"
  shows "kvTXTResources x (K @ ''.k-v.io.'') = getKv x (ToLower K)"
  using assms by (simp add: kv_dispatch Split_nosep)

lemma kv_verb_key:
  assumes "CHR ''.'' \<notin> set verb" and "CHR ''.'' \<notin> set K"
  shows "kvTXTResources x (verb @ ''.'' @ K @ ''.k-v.io.'') =
     (if ToLower verb = ''get'' then getKv x (ToLower K)
      else if ToLower verb = ''put'' then Inr ([[''422: missing a value: put.value.key.k-v.io'']], x)
      else if ToLower verb = ''delete'' then deleteKv x (ToLower K)
      else Inr ([[''422: valid verbs are get, put, delete'']], x))"
proof -
  have "Split (verb @ ''.'' @ K) CHR ''.'' = [verb, K]"
    using assms by (simp add: Split_append Split_nosep)
  then show ?thesis
    using kv_dispatch [of x "verb @ ''.'' @ K"] by (simp add: Let_def)
qed

lemma kv_verb_value_key:
  assumes "CHR ''.'' \<notin> set verb" and "CHR ''.'' \<notin> set K"
  shows "kvTXTResources x (verb @ ''.'' @ V @ ''.'' @ K @ ''.k-v.io.'') =
     (if ToLower verb = ''get'' then getKv x (ToLower K)
      else if ToLower verb = ''put'' then putKv x (ToLower K) V
      else if ToLower verb = ''delete'' then deleteKv x (ToLower K)
      else Inr ([[''422: valid verbs are get, put, delete'']], x))"
proof -
  have s: "Split (verb @ ''.'' @ V @ ''.'' @ K) CHR ''.'' = verb # Split V CHR ''.'' @ [K]"
    using assms by (simp add: Split_append Split_nosep)
  have l: "length (Split V CHR ''.'') > 0" by simp
  have j: "Join (take (length (Split V CHR ''.'')) (Split V CHR ''.'' @ [K])) CHR ''.'' = V"
    by (simp add: Join_Split)
  show ?thesis
    using kv_dispatch [of x "verb @ ''.'' @ V @ ''.'' @ K"] s l j by (simp add: Let_def)
qed

lemma kv_bad_verb:
  assumes "CHR ''.'' \<notin> set verb" and "ToLower verb \<notin> {''get'', ''put'', ''delete''}"
  shows "kvTXTResources x (verb @ ''.'' @ rest @ ''.k-v.io.'') =
     Inr ([[''422: valid verbs are get, put, delete'']], x)"
proof -
  have s: "Split (verb @ ''.'' @ rest) CHR ''.'' = verb # Split rest CHR ''.''"
    using assms by (simp add: Split_append Split_nosep)
  have l: "length (Split rest CHR ''.'') > 0" by simp
  show ?thesis
    using kv_dispatch [of x "verb @ ''.'' @ rest"] s l assms(2) by (simp add: Let_def)
qed

lemma putKv_local:
  "Etcd x = None \<Longrightarrow> putKv x key V =
     Inr ([[take 63 V]], x\<lparr>TxtKvCustomizations := (TxtKvCustomizations x)(key \<mapsto> [[take 63 V]])\<rparr>)"
  by (cases "length V > 63") (simp_all add: putKv_def Let_def not_less)

lemma putKv_etcd:
  "Etcd x = Some etcd \<Longrightarrow> putKv x key V =
     (case Put etcd key (take 63 V) of
        Some err \<Rightarrow> Inl (CouldntPUT key (take 63 V) err)
      | None \<Rightarrow> Inr ([[take 63 V]], x))"
  by (cases "length V > 63") (simp_all add: putKv_def Let_def not_less split: option.splits)

lemma getKv_local:
  "Etcd x = None \<Longrightarrow>
     getKv x key = Inr ((case TxtKvCustomizations x key of Some txtRecord \<Rightarrow> txtRecord | None \<Rightarrow> []), x)"
  by (simp add: getKv_def split: option.splits)

lemma deleteKv_local:
  "Etcd x = None \<Longrightarrow>
     deleteKv x key = Inr ([], x\<lparr>TxtKvCustomizations := (TxtKvCustomizations x)(key := None)\<rparr>)"
  by (simp add: deleteKv_def)

subsection \<open>Questions\<close>

lemma ReplaceAllEmpty_length: "length (ReplaceAllEmpty r p s) \<le> length s"
proof (induction r p s rule: ReplaceAllEmpty.induct)
  case (1 r p)
  then show ?case by simp
next
  case (2 r p x xs)
  show ?case
  proof (cases "run r (p, x # xs, [])")
    case Nil
    then show ?thesis using 2(1) by simp
  next
    case (Cons m ms)
    obtain q t c where m: "m = (q, t, c)" by (cases m)
    show ?thesis
    proof (cases "q > p")
      case True
      have "length (ReplaceAllEmpty r q (drop (q - p) (x # xs))) \<le> length (drop (q - p) (x # xs))"
        using 2(2) Cons m True by simp
      then show ?thesis using Cons m True by simp
    next
      case False
      have "length (ReplaceAllEmpty r (Suc p) xs) \<le> length xs"
        using 2(3) Cons m False by simp
      then show ?thesis using Cons m False by simp
    qed
  qed
qed

lemma acme_referral:
  assumes "IsAcmeChallenge cz (qName q)"
    and "\<not> blocklist cz x (qName q)"
    and "length (qName q) \<le> 255"
  shows "\<exists>r. processQuestion cz x q srcAddr = Inr (r, incAnsweredNSDNS01ChallengeQueries x)
           \<and> \<not> Authoritative (Header r)
           \<and> Answers r = []
           \<and> Authorities r = [[B_NS (rrHeader (qName q) TypeNS 604800)
                                    (ReplaceAllEmpty dns01ChallengeRE 0 (qName q))]]"
proof -
  have "length (ReplaceAllEmpty dns01ChallengeRE 0 (qName q)) \<le> 255"
    using ReplaceAllEmpty_length [of dns01ChallengeRE 0 "qName q"] assms(3) by linarith
  then show ?thesis
    using assms
    by (simp add: processQuestion_def NSResponse_def NSResources_def Let_def newResponse_def
        setAuthoritative_def addAuthorities_def addAdditionals_def NewName_ignoring_error_def
        NewName_def)
qed

lemma process_TXT:
  assumes "\<not> IsAcmeChallenge cz name"
  shows "processQuestion cz x (Question name TypeTXT cl) srcAddr =
     (case TXTResources cz x name srcAddr of
        Inl err \<Rightarrow> Inl err
      | Inr (txts, x') \<Rightarrow>
          Inr (addAnswers (map (\<lambda>txt. B_TXT (rrHeader name TypeTXT 180) txt) txts) newResponse,
               if length txts > 0 then incAnsweredQueries x' else x'))"
  using assms
  by (simp add: processQuestion_def processTXT_def types_distinct Let_def split: sum.splits)

lemma TXTResources_kv: "TXTResources cz x (u @ ''.k-v.io.'') ip = kvTXTResources x (u @ ''.k-v.io.'')"
  using Match_kvRE [of u] by (simp add: TXTResources_def)

lemma written_answers_TXT:
  "written (Answers (addAnswers (map (\<lambda>txt. B_TXT (rrHeader name TypeTXT 180) txt) txts) newResponse)) =
     map (\<lambda>txt. (rrHeader name TypeTXT 180, BodyTXT txt)) txts"
  by (simp add: written_def addAnswers_def newResponse_def build_def rrHeader_def)

lemma kv_query:
  assumes "\<not> IsAcmeChallenge cz (u @ ''.k-v.io.'')"
    and "kvTXTResources x (u @ ''.k-v.io.'') = Inr (txts, x')"
  shows "\<exists>r x''. processQuestion cz x (Question (u @ ''.k-v.io.'') TypeTXT cl) srcAddr = Inr (r, x'')
            \<and> written (Answers r) = map (\<lambda>txt. (rrHeader (u @ ''.k-v.io.'') TypeTXT 180, BodyTXT txt)) txts
            \<and> TxtKvCustomizations x'' = TxtKvCustomizations x'
            \<and> Etcd x'' = Etcd x'"
  using process_TXT [OF assms(1), of x cl srcAddr] TXTResources_kv [of cz x u srcAddr] assms(2)
  by (simp add: written_answers_TXT incAnsweredQueries_def)

subsection \<open>Private addresses\<close>

lemma length4: "length xs = 4 \<Longrightarrow> \<exists>a b c d. xs = [a, b, c, d]"
  by (cases xs; simp; rename_tac ys; case_tac ys; simp; rename_tac zs; case_tac zs; simp;
      rename_tac ws; case_tac ws; simp)

lemma upt4: "[0..<4] = [0, 1, 2, 3]"
  by (simp add: upt_rec)

lemma and255: "(a :: byte) AND 255 = a"
proof -
  have "(255 :: byte) = - 1" by simp
  then show ?thesis by (metis and.right_neutral)
qed

lemma IsPrivate4:
  "IsPrivate [a, b, c, d] = list_ex (\<lambda>n. IPNet_Contains n [a, b, c, d]) privateNets"
  by (auto simp add: IsPrivate_def To4_def privateNets_def IPNet_Contains_def networkNumberAndMask_def
      upt4 and255 Let_def)

lemma upt16: "[0..<16] = [0, 1, 2, 3, 4, 5, 6, 7, 8, 9, 10, 11, 12, 13, 14, 15]"
  by (simp add: upt_rec)

lemma To4_cases: "To4 ip = [] \<or> (\<exists>a b c d. To4 ip = [a, b, c, d])"
proof (cases "To4 ip = []")
  case True
  then show ?thesis by simp
next
  case False
  then have "length (To4 ip) = 4"
    by (auto simp add: To4_def split: if_splits)
  then show ?thesis using length4 by blast
qed

lemma To4_To4: "To4 ip = [a, b, c, d] \<Longrightarrow> To4 [a, b, c, d] = [a, b, c, d]"
  by (simp add: To4_def)

lemma IsPrivate_To4: "To4 ip = [a, b, c, d] \<Longrightarrow> IsPrivate ip = IsPrivate [a, b, c, d]"
  by (simp add: IsPrivate_def To4_def)

lemma Contains_To4:
  "To4 ip = [a, b, c, d] \<Longrightarrow> IPNet_Contains n ip = IPNet_Contains n [a, b, c, d]"
  by (simp add: IPNet_Contains_def To4_def)

lemma IsPrivate_iff: "IsPrivate ip = list_ex (\<lambda>n. IPNet_Contains n ip) privateNets"
proof -
  consider (v6) "To4 ip = []" | (v4) a b c d where "To4 ip = [a, b, c, d]"
    using To4_cases by blast
  then show ?thesis
  proof cases
    case v4
    then show ?thesis
      using IsPrivate4 [of a b c d] by (simp add: IsPrivate_To4 Contains_To4)
  next
    case v6
    have n4: "length ip \<noteq> 4" using v6 by (auto simp add: To4_def)
    show ?thesis
    proof (cases "length ip = 16")
      case False
      then show ?thesis
        using v6 n4
        by (simp add: IsPrivate_def privateNets_def IPNet_Contains_def networkNumberAndMask_def
            To4_def Let_def)
    next
      case True
      have "IPNet_Contains \<lparr>IP = [0xfc, 0, 0, 0, 0, 0, 0, 0, 0, 0, 0, 0, 0, 0, 0, 0],
               Mask = [0xfe, 0, 0, 0, 0, 0, 0, 0, 0, 0, 0, 0, 0, 0, 0, 0]\<rparr> ip
            = ((ip ! 0) AND 0xfe = 0xfc)"
        using v6 True
        by (auto simp add: IPNet_Contains_def networkNumberAndMask_def To4_def Let_def upt16)
      then show ?thesis
        using v6 True
        by (simp add: IsPrivate_def privateNets_def IPNet_Contains_def networkNumberAndMask_def
            To4_def Let_def)
    qed
  qed
qed

subsection \<open>Substrings and the blocklist file\<close>

lemma HasPrefix_iff: "HasPrefix s b \<longleftrightarrow> take (length b) s = b"
  by (induction s b rule: HasPrefix.induct) auto

lemma Contains_iff: "Contains h b \<longleftrightarrow> (\<exists>i \<le> length h. take (length b) (drop i h) = b)"
proof (induction h)
  case Nil
  then show ?case by auto
next
  case (Cons a as)
  have "(\<exists>i \<le> length (a # as). take (length b) (drop i (a # as)) = b) \<longleftrightarrow>
        take (length b) (a # as) = b \<or> (\<exists>i \<le> length as. take (length b) (drop i as) = b)"
    (is "?L \<longleftrightarrow> ?R")
  proof
    assume ?L
    then obtain i where i: "i \<le> length (a # as)" "take (length b) (drop i (a # as)) = b" by blast
    show ?R
    proof (cases i)
      case 0
      then show ?thesis using i by simp
    next
      case (Suc j)
      then show ?thesis using i by auto
    qed
  next
    assume ?R
    then show ?L
    proof
      assume "take (length b) (a # as) = b"
      then have "0 \<le> length (a # as) \<and> take (length b) (drop 0 (a # as)) = b" by simp
      then show ?L by blast
    next
      assume "\<exists>i \<le> length as. take (length b) (drop i as) = b"
      then obtain i where "i \<le> length as" "take (length b) (drop i as) = b" by blast
      then have "Suc i \<le> length (a # as) \<and> take (length b) (drop (Suc i) (a # as)) = b" by simp
      then show ?L by blast
    qed
  qed
  then show ?case using Cons by (simp add: HasPrefix_iff del: HasPrefix.simps)
qed

lemma dnsChars_lower: "c \<in> set dnsChars \<Longrightarrow> lowerChar c = c \<and> \<not> isUpper c"
  by (auto simp add: dnsChars_def lowerChar_def isUpper_def)

lemma dnsChars_ToLower: "set b \<subseteq> set dnsChars \<Longrightarrow> ToLower b = b"
  by (induction b) (auto simp add: ToLower_def dnsChars_lower)

lemma ReadBlocklist_lines_dnsChars:
  "ReadBlocklist_lines scanned = (strs, cidrs) \<Longrightarrow> \<forall>b \<in> set strs. b \<noteq> [] \<and> set b \<subseteq> set dnsChars"
proof (induction scanned arbitrary: strs cidrs)
  case Nil
  then show ?case by simp
next
  case (Cons l ls)
  obtain strs' cidrs' where r: "ReadBlocklist_lines ls = (strs', cidrs')"
    by (cases "ReadBlocklist_lines ls")
  have ih: "\<forall>b \<in> set strs'. b \<noteq> [] \<and> set b \<subseteq> set dnsChars"
    using Cons.IH [OF r] .
  let ?line = "stripInvalidDNScharsWithSlashesDotsAndColons (stripComments (ToLower l))"
  have f: "set (stripInvalidDNSchars ?line) \<subseteq> set dnsChars"
    by (auto simp add: stripInvalidDNSchars_def)
  show ?case
  proof (cases "ParseCIDR ?line")
    case (Some ipcidr)
    then have "strs = strs'" using Cons.prems r by (simp add: Let_def)
    then show ?thesis using ih by simp
  next
    case None
    show ?thesis
    proof (cases "stripInvalidDNSchars ?line = []")
      case True
      then have "strs = strs'" using Cons.prems r None by (simp add: Let_def)
      then show ?thesis using ih by simp
    next
      case False
      then have "strs = stripInvalidDNSchars ?line # strs'"
        using Cons.prems r None by (simp add: Let_def)
      then show ?thesis using ih f False by simp
    qed
  qed
qed

subsection \<open>What a match consumes\<close>

lemma starC_sound:
  "(q, t, c') \<in> set (starC cs (p, s, c)) \<Longrightarrow>
     \<exists>w. s = w @ t \<and> q = p + length w \<and> set w \<subseteq> set cs \<and> c' = c"
proof (induction s arbitrary: p)
  case Nil
  then show ?case by simp
next
  case (Cons x xs)
  show ?case
  proof (cases "x \<in> set cs")
    case False
    then show ?thesis using Cons.prems by simp
  next
    case True
    then have "(q, t, c') \<in> set (starC cs (Suc p, xs, c)) \<or> (q, t, c') = (p, x # xs, c)"
      using Cons.prems by auto
    then show ?thesis
    proof
      assume "(q, t, c') \<in> set (starC cs (Suc p, xs, c))"
      then obtain w where "xs = w @ t" "q = Suc p + length w" "set w \<subseteq> set cs" "c' = c"
        using Cons.IH by blast
      then have "x # xs = (x # w) @ t \<and> q = p + length (x # w) \<and> set (x # w) \<subseteq> set cs \<and> c' = c"
        using True by simp
      then show ?thesis by blast
    next
      assume "(q, t, c') = (p, x # xs, c)"
      then have "x # xs = [] @ t \<and> q = p + length ([] :: string) \<and> set ([] :: string) \<subseteq> set cs \<and> c' = c"
        by simp
      then show ?thesis by blast
    qed
  qed
qed

lemma run_sound:
  "(q, t, c') \<in> set (run r (p, s, c)) \<Longrightarrow> \<exists>w. s = w @ t \<and> q = p + length w \<and> w \<in> lang r"
proof (induction r arbitrary: p s c q t c')
  case (Cls cs)
  then show ?case by (auto split: list.splits if_splits)
next
  case Bol
  then show ?case by (auto split: if_splits)
next
  case Eol
  then show ?case by (auto split: if_splits)
next
  case Eps
  then show ?case by auto
next
  case (Seq a b)
  from Seq.prems obtain p1 s1 c1 where
    1: "(p1, s1, c1) \<in> set (run a (p, s, c))" and 2: "(q, t, c') \<in> set (run b (p1, s1, c1))"
    by auto
  obtain u where u: "s = u @ s1" "p1 = p + length u" "u \<in> lang a"
    using Seq.IH(1) [OF 1] by blast
  obtain v where v: "s1 = v @ t" "q = p1 + length v" "v \<in> lang b"
    using Seq.IH(2) [OF 2] by blast
  have "s = (u @ v) @ t \<and> q = p + length (u @ v) \<and> u @ v \<in> lang (Seq a b)"
    using u v by auto
  then show ?case by blast
next
  case (Alt a b)
  then show ?case by fastforce
next
  case (Opt a)
  from Opt.prems have "(q, t, c') \<in> set (run a (p, s, c)) \<or> (q, t, c') = (p, s, c)" by auto
  then show ?case
  proof
    assume "(q, t, c') \<in> set (run a (p, s, c))"
    then show ?thesis using Opt.IH by fastforce
  next
    assume "(q, t, c') = (p, s, c)"
    then have "s = [] @ t \<and> q = p + length ([] :: string) \<and> [] \<in> lang (Opt a)" by simp
    then show ?thesis by blast
  qed
next
  case (StarC cs)
  then show ?case using starC_sound [of q t c' cs p s c] by auto
next
  case (Grp n a)
  from Grp.prems obtain c0 where "(q, t, c0) \<in> set (run a (p, s, c))" by auto
  then show ?case using Grp.IH by fastforce
qed

lemma run_nogrp: "nogrp r \<Longrightarrow> (q, t, c') \<in> set (run r (p, s, c)) \<Longrightarrow> c' = c"
proof (induction r arbitrary: p s c q t c')
  case (Seq a b)
  from Seq.prems obtain p1 s1 c1 where
    1: "(p1, s1, c1) \<in> set (run a (p, s, c))" and 2: "(q, t, c') \<in> set (run b (p1, s1, c1))"
    by auto
  show ?case using Seq.IH(1) [OF _ 1] Seq.IH(2) [OF _ 2] Seq.prems(1) by simp
next
  case (StarC cs)
  then show ?case using starC_sound [of q t c' cs p s c] by auto
qed (auto split: list.splits if_splits)

lemma run_Seq_mem: "m \<in> set (run (Seq a b) st) \<longleftrightarrow> (\<exists>m1 \<in> set (run a st). m \<in> set (run b m1))"
  by simp

lemma run_Grp_mem:
  "(q, t, c') \<in> set (run (Grp n a) (p, s, c)) \<longleftrightarrow>
     (\<exists>c0. (q, t, c0) \<in> set (run a (p, s, c)) \<and> c' = (n, take (q - p) s) # c0)"
  by force

lemma group2_lang:
  assumes "nogrp a" and "nogrp b" and "nogrp e" and "n \<noteq> 2"
    and "(q, t, c') \<in> set (run (seqs [Grp 1 a, Grp 2 b, Grp n e]) (p, s, []))"
  shows "group 2 c' \<in> lang b"
proof -
  have "(q, t, c') \<in> set (run (Seq (Grp 1 a) (Seq (Grp 2 b) (Grp n e))) (p, s, []))"
    using assms(5) by simp
  then obtain m1 where m1: "m1 \<in> set (run (Grp 1 a) (p, s, []))"
    and 2: "(q, t, c') \<in> set (run (Seq (Grp 2 b) (Grp n e)) m1)"
    unfolding run_Seq_mem by blast
  from 2 obtain m2 where m2: "m2 \<in> set (run (Grp 2 b) m1)"
    and 4: "(q, t, c') \<in> set (run (Grp n e) m2)"
    unfolding run_Seq_mem by blast
  obtain p1 s1 c1 where e1: "m1 = (p1, s1, c1)" by (cases m1)
  obtain p2 s2 c2 where e2: "m2 = (p2, s2, c2)" by (cases m2)
  obtain c0 where 5: "(p2, s2, c0) \<in> set (run b (p1, s1, c1))"
    and c2: "c2 = (2, take (p2 - p1) s1) # c0"
    using m2 unfolding e1 e2 run_Grp_mem by blast
  obtain w where w: "s1 = w @ s2" "p2 = p1 + length w" "w \<in> lang b"
    using run_sound [OF 5] by blast
  obtain c3 where 6: "(q, t, c3) \<in> set (run e (p2, s2, c2))"
    and c': "c' = (n, take (q - p2) s2) # c3"
    using 4 unfolding e2 run_Grp_mem by blast
  have "c3 = c2" using run_nogrp [OF assms(3) 6] .
  then have "group 2 c' = w" using c' c2 w assms(4) by simp
  then show ?thesis using w(3) by simp
qed

lemma search_mem:
  "search r q s = Some m \<Longrightarrow> \<exists>p \<le> length s. m \<in> set (run r (q + p, drop p s, []))"
proof (induction s arbitrary: q)
  case Nil
  then show ?case by (auto split: list.splits)
next
  case (Cons x xs)
  show ?case
  proof (cases "run r (q, x # xs, [])")
    case Nil
    then have "search r (Suc q) xs = Some m" using Cons.prems by simp
    then obtain p where "p \<le> length xs" "m \<in> set (run r (Suc q + p, drop p xs, []))"
      using Cons.IH by blast
    then have "Suc p \<le> length (x # xs) \<and> m \<in> set (run r (q + Suc p, drop (Suc p) (x # xs), []))"
      by simp
    then show ?thesis by blast
  next
    case (Cons m' ms)
    then have "m = m'" using Cons.prems by simp
    then have "0 \<le> length (x # xs) \<and> m \<in> set (run r (q + 0, drop 0 (x # xs), []))"
      using Cons by simp
    then show ?thesis by blast
  qed
qed

lemma search_at:
  "p \<le> length s \<Longrightarrow> run r (q + p, drop p s, []) = m # ms \<Longrightarrow>
   \<forall>j < p. run r (q + j, drop j s, []) = [] \<Longrightarrow> search r q s = Some m"
proof (induction p arbitrary: q s)
  case 0
  then show ?case by simp
next
  case (Suc p)
  then obtain x xs where s: "s = x # xs" by (cases s) auto
  have 0: "run r (q, x # xs, []) = []" using Suc.prems(3) [rule_format, of 0] s by simp
  have "search r (Suc q) xs = Some m"
  proof (rule Suc.IH)
    show "p \<le> length xs" using Suc.prems(1) s by simp
    show "run r (Suc q + p, drop p xs, []) = m # ms" using Suc.prems(2) s by simp
    show "\<forall>j < p. run r (Suc q + j, drop j xs, []) = []"
    proof (intro allI impI)
      fix j assume "j < p"
      then show "run r (Suc q + j, drop j xs, []) = []"
        using Suc.prems(3) [rule_format, of "Suc j"] s by simp
    qed
  qed
  then show ?case using 0 s by simp
qed

lemma searchLongest_at:
  "p \<le> length s \<Longrightarrow> run r (q + p, drop p s, []) = m # ms \<Longrightarrow>
   \<forall>j < p. run r (q + j, drop j s, []) = [] \<Longrightarrow> searchLongest r q s = Some (longest m ms)"
proof (induction p arbitrary: q s)
  case 0
  then show ?case by simp
next
  case (Suc p)
  then obtain x xs where s: "s = x # xs" by (cases s) auto
  have 0: "run r (q, x # xs, []) = []" using Suc.prems(3) [rule_format, of 0] s by simp
  have "searchLongest r (Suc q) xs = Some (longest m ms)"
  proof (rule Suc.IH)
    show "p \<le> length xs" using Suc.prems(1) s by simp
    show "run r (Suc q + p, drop p xs, []) = m # ms" using Suc.prems(2) s by simp
    show "\<forall>j < p. run r (Suc q + j, drop j xs, []) = []"
    proof (intro allI impI)
      fix j assume "j < p"
      then show "run r (Suc q + j, drop j xs, []) = []"
        using Suc.prems(3) [rule_format, of "Suc j"] s by simp
    qed
  qed
  then show ?case using 0 s by simp
qed

lemma leftmostAt_search:
  assumes "leftmostAt r s p"
  shows "Match r s" and "FindSubmatch r s 2 = literalAt r s p"
    and "FindSubmatchLongest r s 2 = longestLiteralAt r s p"
proof -
  have p: "p \<le> length s" and ne: "run r (p, drop p s, []) \<noteq> []"
    using assms by (simp_all add: leftmostAt_def matchesAt_def)
  then obtain m ms where m: "run r (0 + p, drop p s, []) = m # ms"
    by (cases "run r (p, drop p s, [])") auto
  have before: "\<forall>j < p. run r (0 + j, drop j s, []) = []"
    using assms p by (auto simp add: leftmostAt_def matchesAt_def list_all_iff)
  have 1: "search r 0 s = Some m" using search_at [OF p m before] .
  have 2: "searchLongest r 0 s = Some (longest m ms)" using searchLongest_at [OF p m before] .
  show "Match r s" using 1 by (simp add: Match_def)
  show "FindSubmatch r s 2 = literalAt r s p"
    using 1 m by (simp add: FindSubmatch_def literalAt_def split: prod.splits)
  show "FindSubmatchLongest r s 2 = longestLiteralAt r s p"
    using 2 m by (simp add: FindSubmatchLongest_def longestLiteralAt_def split: prod.splits)
qed

lemma noMatch_Match: "noMatch r s \<Longrightarrow> \<not> Match r s"
  unfolding Match_iff noMatch_def matchesAt_def list_all_iff by auto

lemma NameToA_patterns_aRecords:
  "NameToA_patterns (r # rs) fqdn =
     (if Match r fqdn then aRecords (FindSubmatch r fqdn 2) else NameToA_patterns rs fqdn)"
  by (simp add: aRecords_def Let_def)

lemma NameToAAAA_pattern_aaaaRecords:
  "NameToAAAA_pattern fqdn =
     (if Match ipv6RE fqdn then aaaaRecords (FindSubmatchLongest ipv6RE fqdn 2) else [])"
  by (simp add: NameToAAAA_pattern_def aaaaRecords_def Let_def)

subsection \<open>The octets of an IPv4 literal\<close>

lemma digit_bounds:
  "c \<in> set digit \<Longrightarrow> isDigit c \<and> 0 \<le> digitVal c \<and> digitVal c \<le> 9"
  by (auto simp add: digit_def isDigit_def digitVal_def)

lemma digit04_bounds:
  "c \<in> set ''01234'' \<Longrightarrow> isDigit c \<and> 0 \<le> digitVal c \<and> digitVal c \<le> 4"
  by (auto simp add: isDigit_def digitVal_def)

lemma digit05_bounds:
  "c \<in> set ''012345'' \<Longrightarrow> isDigit c \<and> 0 \<le> digitVal c \<and> digitVal c \<le> 5"
  by (auto simp add: isDigit_def digitVal_def)

lemma digit_consts:
  "isDigit CHR ''1''" "digitVal CHR ''1'' = 1" "isDigit CHR ''2''" "digitVal CHR ''2'' = 2"
  "isDigit CHR ''5''" "digitVal CHR ''5'' = 5"
  by (simp_all add: isDigit_def digitVal_def)

lemma isDigit_bounds: "isDigit c \<Longrightarrow> 0 \<le> digitVal c \<and> digitVal c \<le> 9"
  by (auto simp add: isDigit_def digitVal_def)

lemma set_single: "x \<in> set [c] \<longleftrightarrow> x = c"
  by simp

lemma lang_octet_cases:
  assumes "w \<in> lang octet"
  obtains (a) c where "w = [CHR ''2'', CHR ''5'', c]" "c \<in> set ''012345''"
    | (b) x d where "w = [CHR ''2'', x, d]" "x \<in> set ''01234''" "d \<in> set digit"
    | (c) y d where "w = [CHR ''1'', y, d]" "y \<in> set digit" "d \<in> set digit"
    | (d) y d where "w = [y, d]" "y \<in> set digit" "d \<in> set digit"
    | (e) d where "w = [d]" "d \<in> set digit"
proof -
  have "w \<in> {[CHR ''2'', CHR ''5'', c] | c. c \<in> set ''012345''}
          \<union> {[CHR ''2'', x, d] | x d. x \<in> set ''01234'' \<and> d \<in> set digit}
          \<union> {[CHR ''1'', y, d] | y d. y \<in> set digit \<and> d \<in> set digit}
          \<union> {[y, d] | y d. y \<in> set digit \<and> d \<in> set digit}
          \<union> {[d] | d. d \<in> set digit}"
    using assms unfolding octet_def by (auto simp del: set_simps simp add: set_single)
  then show ?thesis using a b c d e by blast
qed

lemma lang_octet:
  assumes "w \<in> lang octet"
  shows "octetString w"
  using assms
proof (cases rule: lang_octet_cases)
  case (a c)
  then show ?thesis
    using digit05_bounds [of c] digit_consts
    by (simp add: octetString_def decimal_def)
next
  case (b x d)
  then show ?thesis
    using digit04_bounds [of x] digit_bounds [of d] digit_consts
    by (simp add: octetString_def decimal_def)
next
  case (c y d)
  then show ?thesis
    using digit_bounds [of y] digit_bounds [of d] digit_consts
    by (simp add: octetString_def decimal_def)
next
  case (d y d)
  then show ?thesis
    using digit_bounds [of y] digit_bounds [of d]
    by (simp add: octetString_def decimal_def)
next
  case (e d)
  then show ?thesis
    using digit_bounds [of d]
    by (simp add: octetString_def decimal_def)
qed

lemma repeatN3: "repeatN 3 r = Seq r (Seq r r)"
  by (simp add: numeral_3_eq_3)

lemma lang_ipv4Body:
  assumes "w \<in> lang (ipv4Body sep)"
  shows "\<exists>o1 o2 o3 o4. w = o1 @ sep # o2 @ sep # o3 @ sep # o4
           \<and> o1 \<in> lang octet \<and> o2 \<in> lang octet \<and> o3 \<in> lang octet \<and> o4 \<in> lang octet"
proof -
  obtain o1 o2 o3 o4 where "w = ((o1 @ [sep]) @ (o2 @ [sep]) @ (o3 @ [sep])) @ o4"
    and o: "o1 \<in> lang octet" "o2 \<in> lang octet" "o3 \<in> lang octet" "o4 \<in> lang octet"
    using assms unfolding ipv4Body_def repeatN3 by (auto simp del: set_simps simp add: set_single)
  then have "w = o1 @ sep # o2 @ sep # o3 @ sep # o4" by simp
  then show ?thesis using o by blast
qed

lemma nogrp_patterns: "nogrp sepStart" "nogrp sepEnd" "nogrp (ipv4Body sep)"
  by (simp_all add: sepStart_def sepEnd_def ipv4Body_def repeatN3 octet_def)

lemma FindSubmatch_ipv4:
  assumes "r = seqs [Grp 1 sepStart, Grp 2 (ipv4Body sep), Grp 8 sepEnd]" and "Match r fqdn"
  shows "FindSubmatch r fqdn 2 \<in> lang (ipv4Body sep)"
proof -
  obtain q t c where s: "search r 0 fqdn = Some (q, t, c)"
    using assms(2) by (auto simp add: Match_def)
  then obtain p where "(q, t, c) \<in> set (run r (0 + p, drop p fqdn, []))"
    using search_mem by blast
  then have mem: "(q, t, c) \<in> set (run (seqs [Grp 1 sepStart, Grp 2 (ipv4Body sep), Grp 8 sepEnd])
                      (p, drop p fqdn, []))"
    by (simp only: assms(1) add_0)
  have 8: "(8 :: nat) \<noteq> 2" by simp
  have "group 2 c \<in> lang (ipv4Body sep)"
    using group2_lang [OF nogrp_patterns(1) nogrp_patterns(3) nogrp_patterns(2) 8 mem] .
  then show ?thesis using s by (simp add: FindSubmatch_def)
qed

text \<open>Reading one field of an address.\<close>

lemma dtoi_octet:
  assumes "octetString w" and "r = [] \<or> \<not> isDigit (hd r)"
  shows "dtoi (w @ r) = (decimal w, length w, True)"
proof -
  have rr: "dtoi_loop r n i = (n, i, True)" for n i
    using assms(2) by (cases r) auto
  consider (1) a where "w = [a]" | (2) a b where "w = [a, b]" | (3) a b c where "w = [a, b, c]"
    using assms(1) unfolding octetString_def
    by (cases w; simp; rename_tac ys; case_tac ys; simp; rename_tac zs; case_tac zs; simp)
  then show ?thesis
  proof cases
    case 1
    then show ?thesis
      using assms(1) isDigit_bounds [of a] rr
      by (simp add: octetString_def dtoi_def decimal_def big_def Let_def)
  next
    case 2
    then show ?thesis
      using assms(1) isDigit_bounds [of a] isDigit_bounds [of b] rr
      by (simp add: octetString_def dtoi_def decimal_def big_def Let_def)
  next
    case 3
    then show ?thesis
      using assms(1) isDigit_bounds [of a] isDigit_bounds [of b] isDigit_bounds [of c] rr
      by (simp add: octetString_def dtoi_def decimal_def big_def Let_def)
  qed
qed

lemma decimal_nonneg: "octetString w \<Longrightarrow> 0 \<le> decimal w"
proof -
  assume a: "octetString w"
  have "list_all isDigit v \<Longrightarrow> 0 \<le> n \<Longrightarrow> 0 \<le> foldl (\<lambda>n c. n * 10 + digitVal c) n v" for v n
  proof (induction v arbitrary: n)
    case Nil
    then show ?case by simp
  next
    case (Cons c v)
    then show ?case using isDigit_bounds [of c] by simp
  qed
  then show ?thesis using a by (simp add: octetString_def decimal_def)
qed

lemma not_digit_dot: "\<not> isDigit CHR ''.''"
  by (simp add: isDigit_def)

lemma field_first:
  assumes "octetString w" and "r = [] \<or> \<not> isDigit (hd r)"
  shows "parseIPv4_fields (Suc k) True (w @ r) =
     (if leadingZero w then None
      else map_option (Cons (of_int (decimal w))) (parseIPv4_fields k False r))"
proof -
  have ne: "w \<noteq> []" using assms(1) by (simp add: octetString_def)
  have le: "decimal w \<le> 255" using assms(1) by (simp add: octetString_def)
  have t: "take 1 (w @ r) = take 1 w" using ne by (cases w) auto
  have l: "(1 < length w) = (Suc 0 < length w)" by simp
  show ?thesis
    using dtoi_octet [OF assms] ne le t
    by (auto simp add: leadingZero_def)
qed

lemma field_next:
  assumes "octetString w" and "r = [] \<or> \<not> isDigit (hd r)"
  shows "parseIPv4_fields (Suc k) False (CHR ''.'' # w @ r) =
     (if leadingZero w then None
      else map_option (Cons (of_int (decimal w))) (parseIPv4_fields k False r))"
proof -
  have ne: "w \<noteq> []" using assms(1) by (simp add: octetString_def)
  have le: "decimal w \<le> 255" using assms(1) by (simp add: octetString_def)
  have t: "take 1 (w @ r) = take 1 w" using ne by (cases w) auto
  show ?thesis
    using dtoi_octet [OF assms] ne le t
    by (auto simp add: leadingZero_def)
qed

lemma parseIPv4_fields_literal:
  assumes "octetString o1" "octetString o2" "octetString o3" "octetString o4"
  shows "parseIPv4_fields 4 True (o1 @ CHR ''.'' # o2 @ CHR ''.'' # o3 @ CHR ''.'' # o4) =
     (if list_ex leadingZero [o1, o2, o3, o4] then None
      else Some [of_int (decimal o1), of_int (decimal o2), of_int (decimal o3), of_int (decimal o4)])"
proof -
  have 4: "(4 :: nat) = Suc (Suc (Suc (Suc 0)))" by simp
  have f1: "parseIPv4_fields (Suc (Suc (Suc (Suc 0)))) True (o1 @ CHR ''.'' # o2 @ CHR ''.'' # o3 @ CHR ''.'' # o4) =
     (if leadingZero o1 then None
      else map_option (Cons (of_int (decimal o1)))
             (parseIPv4_fields (Suc (Suc (Suc 0))) False (CHR ''.'' # o2 @ CHR ''.'' # o3 @ CHR ''.'' # o4)))"
    using field_first [OF assms(1), of "CHR ''.'' # o2 @ CHR ''.'' # o3 @ CHR ''.'' # o4" "Suc (Suc (Suc 0))"]
      not_digit_dot by simp
  have f2: "parseIPv4_fields (Suc (Suc (Suc 0))) False (CHR ''.'' # o2 @ CHR ''.'' # o3 @ CHR ''.'' # o4) =
     (if leadingZero o2 then None
      else map_option (Cons (of_int (decimal o2)))
             (parseIPv4_fields (Suc (Suc 0)) False (CHR ''.'' # o3 @ CHR ''.'' # o4)))"
    using field_next [OF assms(2), of "CHR ''.'' # o3 @ CHR ''.'' # o4" "Suc (Suc 0)"]
      not_digit_dot by simp
  have f3: "parseIPv4_fields (Suc (Suc 0)) False (CHR ''.'' # o3 @ CHR ''.'' # o4) =
     (if leadingZero o3 then None
      else map_option (Cons (of_int (decimal o3)))
             (parseIPv4_fields (Suc 0) False (CHR ''.'' # o4)))"
    using field_next [OF assms(3), of "CHR ''.'' # o4" "Suc 0"] not_digit_dot by simp
  have f4: "parseIPv4_fields (Suc 0) False (CHR ''.'' # o4) =
     (if leadingZero o4 then None else Some [of_int (decimal o4)])"
    using field_next [OF assms(4), of "[]" 0] by simp
  show ?thesis
    unfolding 4 f1 f2 f3 f4 by simp
qed

lemma ParseIP_scan_digits:
  "list_all isDigit w \<Longrightarrow> ParseIP_scan s (w @ CHR ''.'' # r) = parseIPv4 s"
  by (induction w) (auto simp add: isDigit_def)

lemma replicate10: "replicate 10 (0 :: byte) = [0, 0, 0, 0, 0, 0, 0, 0, 0, 0]"
  by code_simp

lemma To4_IPv4: "To4 (IPv4 a b c d) = [a, b, c, d]"
  by (simp add: To4_def IPv4_def v4InV6Prefix_def replicate10)

lemma ParseIP_literal:
  assumes "octetString o1" "octetString o2" "octetString o3" "octetString o4"
  shows "To4 (ParseIP (o1 @ CHR ''.'' # o2 @ CHR ''.'' # o3 @ CHR ''.'' # o4)) =
     (if list_ex leadingZero [o1, o2, o3, o4] then []
      else [of_int (decimal o1), of_int (decimal o2), of_int (decimal o3), of_int (decimal o4)])"
proof -
  have d: "list_all isDigit o1" using assms(1) by (simp add: octetString_def)
  have "ParseIP (o1 @ CHR ''.'' # o2 @ CHR ''.'' # o3 @ CHR ''.'' # o4) =
          parseIPv4 (o1 @ CHR ''.'' # o2 @ CHR ''.'' # o3 @ CHR ''.'' # o4)"
    unfolding ParseIP_def using ParseIP_scan_digits [OF d] by simp
  then show ?thesis
    using parseIPv4_fields_literal [OF assms]
    by (simp add: parseIPv4_def To4_IPv4) (simp add: To4_def)
qed

lemma Replace_digits: "list_all isDigit w \<Longrightarrow> Replace w CHR ''-'' CHR ''.'' = w"
  by (induction w) (auto simp add: Replace_def isDigit_def)

lemma Replace_literal:
  assumes "octetString o1" "octetString o2" "octetString o3" "octetString o4"
    and "sep = CHR ''-'' \<or> sep = CHR ''.''"
  shows "Replace (o1 @ sep # o2 @ sep # o3 @ sep # o4) CHR ''-'' CHR ''.'' =
           o1 @ CHR ''.'' # o2 @ CHR ''.'' # o3 @ CHR ''.'' # o4"
proof -
  have "Replace (u @ v) a b = Replace u a b @ Replace v a b" for u v a b
    by (simp add: Replace_def)
  moreover have "Replace (sep # v) CHR ''-'' CHR ''.'' = CHR ''.'' # Replace v CHR ''-'' CHR ''.''" for v
    using assms(5) by (auto simp add: Replace_def)
  ultimately show ?thesis
    using assms(1-4) by (simp add: Replace_digits octetString_def)
qed

lemma aRecords_literal:
  assumes "octetString o1" "octetString o2" "octetString o3" "octetString o4"
    and "sep = CHR ''-'' \<or> sep = CHR ''.''"
  shows "aRecords (o1 @ sep # o2 @ sep # o3 @ sep # o4) =
     (if list_ex leadingZero [o1, o2, o3, o4] then []
      else [[of_int (decimal o1), of_int (decimal o2), of_int (decimal o3), of_int (decimal o4)]])"
  unfolding aRecords_def Replace_literal [OF assms] ParseIP_literal [OF assms(1-4)]
  by (simp add: Let_def)

section \<open>Names with an IPv4 literal (C1)\<close>

text \<open>
  C1, as the code has it. For every FQDN that matches one of the IPv4 patterns (dashed
  tried first, then dotted) and has no A customization, the literal taken from the name
  is four octets, each of one to three digits and of value at most 255, joined by the
  separator of the pattern; and \<open>NameToA\<close> returns exactly one A record whose four
  bytes are these octets, unless an octet of several digits starts with a zero: then
  \<^verbatim>\<open>net.ParseIP\<close> rejects the literal and \<open>NameToA\<close> returns no record.
\<close>

theorem C1_name_to_A:
  assumes "cz (ToLower fqdn) = None \<or> (\<exists>d. cz (ToLower fqdn) = Some d \<and> A d = [])"
    and "Match ipv4REDashes fqdn \<or> Match ipv4REDots fqdn"
  shows "\<exists>o1 o2 o3 o4.
           ipv4Literal fqdn =
             o1 @ ipv4Separator fqdn # o2 @ ipv4Separator fqdn # o3 @ ipv4Separator fqdn # o4
         \<and> list_all octetString [o1, o2, o3, o4]
         \<and> NameToA cz fqdn =
             (if list_ex leadingZero [o1, o2, o3, o4] then []
              else [[of_int (decimal o1), of_int (decimal o2), of_int (decimal o3),
                     of_int (decimal o4)]])"
proof -
  let ?sep = "ipv4Separator fqdn"
  let ?r = "if Match ipv4REDashes fqdn then ipv4REDashes else ipv4REDots"
  have r: "?r = seqs [Grp 1 sepStart, Grp 2 (ipv4Body ?sep), Grp 8 sepEnd]"
    by (simp add: ipv4Separator_def ipv4REDashes_def ipv4REDots_def)
  have m: "Match ?r fqdn" using assms(2) by auto
  have sep: "?sep = CHR ''-'' \<or> ?sep = CHR ''.''" by (simp add: ipv4Separator_def)
  have lit: "ipv4Literal fqdn = FindSubmatch ?r fqdn 2" by (simp add: ipv4Literal_def)
  have "NameToA cz fqdn = NameToA_patterns [ipv4REDashes, ipv4REDots] fqdn"
    using assms(1) by (auto simp add: NameToA_def)
  then have n: "NameToA cz fqdn = aRecords (ipv4Literal fqdn)"
    using assms(2) by (simp only: NameToA_patterns_aRecords ipv4Literal_def split: if_splits) auto
  have "ipv4Literal fqdn \<in> lang (ipv4Body ?sep)"
    unfolding lit using FindSubmatch_ipv4 [OF r m] .
  then obtain o1 o2 o3 o4 where w: "ipv4Literal fqdn = o1 @ ?sep # o2 @ ?sep # o3 @ ?sep # o4"
    and o: "o1 \<in> lang octet" "o2 \<in> lang octet" "o3 \<in> lang octet" "o4 \<in> lang octet"
    using lang_ipv4Body by blast
  have os: "octetString o1" "octetString o2" "octetString o3" "octetString o4"
    using o lang_octet by blast+
  have "NameToA cz fqdn =
          (if list_ex leadingZero [o1, o2, o3, o4] then []
           else [[of_int (decimal o1), of_int (decimal o2), of_int (decimal o3), of_int (decimal o4)]])"
    unfolding n w using aRecords_literal [OF os sep] .
  then show ?thesis using w os by auto
qed

text \<open>
  The name \<^verbatim>\<open>www.192-168-0-1.sslip.io.\<close> has no customization and matches the
  dashed pattern.
\<close>

lemma C1_ex_lower: "ToLower ''www.192-168-0-1.sslip.io.'' = ''www.192-168-0-1.sslip.io.''"
  by code_simp

lemma C1_ex_match: "Match ipv4REDashes ''www.192-168-0-1.sslip.io.''"
  by code_simp

lemma C1_ex_literal:
  "ipv4Literal ''www.192-168-0-1.sslip.io.'' = ''192-168-0-1''
   \<and> ipv4Separator ''www.192-168-0-1.sslip.io.'' = CHR ''-''"
  by code_simp

theorem C1_witness:
  "\<exists>o1 o2 o3 o4.
      ''192-168-0-1'' = o1 @ CHR ''-'' # o2 @ CHR ''-'' # o3 @ CHR ''-'' # o4
    \<and> list_all octetString [o1, o2, o3, o4]
    \<and> NameToA Customizations0 ''www.192-168-0-1.sslip.io.'' =
        (if list_ex leadingZero [o1, o2, o3, o4] then []
         else [[of_int (decimal o1), of_int (decimal o2), of_int (decimal o3),
                of_int (decimal o4)]])"
proof -
  have 1: "Customizations0 (ToLower ''www.192-168-0-1.sslip.io.'') = None
           \<or> (\<exists>d. Customizations0 (ToLower ''www.192-168-0-1.sslip.io.'') = Some d \<and> A d = [])"
    unfolding C1_ex_lower by (simp add: Customizations0_def Customizations_def)
  have 2: "Match ipv4REDashes ''www.192-168-0-1.sslip.io.''
           \<or> Match ipv4REDots ''www.192-168-0-1.sslip.io.''"
    using C1_ex_match by simp
  show ?thesis
    using C1_name_to_A [of Customizations0 "''www.192-168-0-1.sslip.io.''"] 1 2
    unfolding C1_ex_literal [THEN conjunct1] C1_ex_literal [THEN conjunct2] by blast
qed

text \<open>
  The name of the comment in \<open>NameToA\<close>: it matches the dotted pattern with the
  literal \<^verbatim>\<open>04.235.249.181\<close>, has no customization, and gets no record.
\<close>

lemma C1_cex_lower:
  "ToLower ''ubuntu20.04.235.249.181-notify.sslip.io.'' = ''ubuntu20.04.235.249.181-notify.sslip.io.''"
  by code_simp

lemma C1_cex_lookup:
  "Customizations0 (ToLower ''ubuntu20.04.235.249.181-notify.sslip.io.'') = None"
  unfolding C1_cex_lower by (simp add: Customizations0_def Customizations_def)

lemma C1_cex_run:
  "Match ipv4REDots ''ubuntu20.04.235.249.181-notify.sslip.io.''
   \<and> ipv4Literal ''ubuntu20.04.235.249.181-notify.sslip.io.'' = ''04.235.249.181''
   \<and> NameToA Customizations0 ''ubuntu20.04.235.249.181-notify.sslip.io.'' = []"
  by code_simp

theorem C1_counterexample:
  "Match ipv4REDots ''ubuntu20.04.235.249.181-notify.sslip.io.''
   \<and> Customizations0 (ToLower ''ubuntu20.04.235.249.181-notify.sslip.io.'') = None
   \<and> ipv4Literal ''ubuntu20.04.235.249.181-notify.sslip.io.'' = ''04.235.249.181''
   \<and> NameToA Customizations0 ''ubuntu20.04.235.249.181-notify.sslip.io.'' = []"
  using C1_cex_run C1_cex_lookup by simp

section \<open>Private addresses are never blocked (C2)\<close>

text \<open>
  C2, as the code has it. \<open>blocklist\<close> returns true only if the address it takes from
  the hostname is not private in the sense of \<^verbatim>\<open>net.IP.IsPrivate\<close>, that is, outside
  10/8, 172.16/12, 192.168/16 and fc00::/7: for any name whose address lies in one of
  these four networks \<open>blocklist\<close> returns false, whatever the substrings and networks
  of the blocklist.
\<close>

theorem C2_private_bypass:
  "(blocklist cz x hostname \<longrightarrow> \<not> IsPrivate (blocklistIP cz hostname))
   \<and> (list_ex (\<lambda>n. IPNet_Contains n (blocklistIP cz hostname)) privateNets
        \<longrightarrow> \<not> blocklist cz x hostname)"
  by (simp add: blocklist_def Let_def IsPrivate_iff)

text \<open>A name with 10.9.9.30, one with fdff::1, and one with 8.8.8.8, all with the blocked
  substring.\<close>

lemma C2_ex1:
  "list_ex (\<lambda>n. IPNet_Contains n (blocklistIP Customizations0 ''raiffeisen.10-9-9-30.sslip.io.'')) privateNets"
  by code_simp

lemma C2_ex2:
  "list_ex (\<lambda>n. IPNet_Contains n (blocklistIP Customizations0 ''raiffeisen.fdff--1.sslip.io.'')) privateNets"
  by code_simp

lemma C2_ex3: "blocklist Customizations0 exampleBlocklist ''raiffeisen.8-8-8-8.sslip.io.''"
  by code_simp

theorem C2_witness:
  "\<not> blocklist Customizations0 exampleBlocklist ''raiffeisen.10-9-9-30.sslip.io.''
   \<and> \<not> blocklist Customizations0 exampleBlocklist ''raiffeisen.fdff--1.sslip.io.''
   \<and> blocklist Customizations0 exampleBlocklist ''raiffeisen.8-8-8-8.sslip.io.''"
  using C2_private_bypass [of Customizations0 exampleBlocklist "''raiffeisen.10-9-9-30.sslip.io.''"]
    C2_private_bypass [of Customizations0 exampleBlocklist "''raiffeisen.fdff--1.sslip.io.''"]
    C2_ex1 C2_ex2 C2_ex3
  by simp

text \<open>
  The claim also exempts the loopback, CG-NAT and link-local addresses, ORCHIDv2, the
  documentation prefix and 64:ff9b:1::/48. The code does not: names with 127.0.0.1,
  100.64.1.2, 169.254.169.254, ::1, fe80::1, 2001:db8::1, 2001:20::1 and 64:ff9b:1::1
  and the blocked substring are blocked.
\<close>

lemma C2_cex_loopback:
  "blocklistIP Customizations0 ''raiffeisen.127-0-0-1.sslip.io.'' = [127, 0, 0, 1]
   \<and> blocklist Customizations0 exampleBlocklist ''raiffeisen.127-0-0-1.sslip.io.''"
  by code_simp

lemma C2_cex_cgnat:
  "blocklistIP Customizations0 ''raiffeisen.100-64-1-2.sslip.io.'' = [100, 64, 1, 2]
   \<and> blocklist Customizations0 exampleBlocklist ''raiffeisen.100-64-1-2.sslip.io.''"
  by code_simp

lemma C2_cex_linklocal:
  "blocklistIP Customizations0 ''raiffeisen.169-254-169-254.sslip.io.'' = [169, 254, 169, 254]
   \<and> blocklist Customizations0 exampleBlocklist ''raiffeisen.169-254-169-254.sslip.io.''"
  by code_simp

lemma C2_cex_loopback6:
  "blocklistIP Customizations0 ''raiffeisen.--1.sslip.io.'' = [0, 0, 0, 0, 0, 0, 0, 0, 0, 0, 0, 0, 0, 0, 0, 1]
   \<and> blocklist Customizations0 exampleBlocklist ''raiffeisen.--1.sslip.io.''"
  by code_simp

lemma C2_cex_linklocal6:
  "blocklistIP Customizations0 ''raiffeisen.fe80--1.sslip.io.'' = [0xfe, 0x80, 0, 0, 0, 0, 0, 0, 0, 0, 0, 0, 0, 0, 0, 1]
   \<and> blocklist Customizations0 exampleBlocklist ''raiffeisen.fe80--1.sslip.io.''"
  by code_simp

lemma C2_cex_doc6:
  "blocklistIP Customizations0 ''raiffeisen.2001-db8--1.sslip.io.'' = [0x20, 0x01, 0x0d, 0xb8, 0, 0, 0, 0, 0, 0, 0, 0, 0, 0, 0, 1]
   \<and> blocklist Customizations0 exampleBlocklist ''raiffeisen.2001-db8--1.sslip.io.''"
  by code_simp

lemma C2_cex_orchid:
  "blocklistIP Customizations0 ''raiffeisen.2001-20--1.sslip.io.'' = [0x20, 0x01, 0, 0x20, 0, 0, 0, 0, 0, 0, 0, 0, 0, 0, 0, 1]
   \<and> blocklist Customizations0 exampleBlocklist ''raiffeisen.2001-20--1.sslip.io.''"
  by code_simp

lemma C2_cex_translation:
  "blocklistIP Customizations0 ''raiffeisen.64-ff9b-1--1.sslip.io.'' = [0, 0x64, 0xff, 0x9b, 0, 1, 0, 0, 0, 0, 0, 0, 0, 0, 0, 1]
   \<and> blocklist Customizations0 exampleBlocklist ''raiffeisen.64-ff9b-1--1.sslip.io.''"
  by code_simp

theorem C2_counterexample:
  "blocklistIP Customizations0 ''raiffeisen.127-0-0-1.sslip.io.'' = [127, 0, 0, 1]
   \<and> blocklist Customizations0 exampleBlocklist ''raiffeisen.127-0-0-1.sslip.io.''
   \<and> blocklistIP Customizations0 ''raiffeisen.100-64-1-2.sslip.io.'' = [100, 64, 1, 2]
   \<and> blocklist Customizations0 exampleBlocklist ''raiffeisen.100-64-1-2.sslip.io.''
   \<and> blocklistIP Customizations0 ''raiffeisen.169-254-169-254.sslip.io.'' = [169, 254, 169, 254]
   \<and> blocklist Customizations0 exampleBlocklist ''raiffeisen.169-254-169-254.sslip.io.''
   \<and> blocklistIP Customizations0 ''raiffeisen.--1.sslip.io.'' = [0, 0, 0, 0, 0, 0, 0, 0, 0, 0, 0, 0, 0, 0, 0, 1]
   \<and> blocklist Customizations0 exampleBlocklist ''raiffeisen.--1.sslip.io.''
   \<and> blocklistIP Customizations0 ''raiffeisen.fe80--1.sslip.io.'' = [0xfe, 0x80, 0, 0, 0, 0, 0, 0, 0, 0, 0, 0, 0, 0, 0, 1]
   \<and> blocklist Customizations0 exampleBlocklist ''raiffeisen.fe80--1.sslip.io.''
   \<and> blocklistIP Customizations0 ''raiffeisen.2001-db8--1.sslip.io.'' = [0x20, 0x01, 0x0d, 0xb8, 0, 0, 0, 0, 0, 0, 0, 0, 0, 0, 0, 1]
   \<and> blocklist Customizations0 exampleBlocklist ''raiffeisen.2001-db8--1.sslip.io.''
   \<and> blocklistIP Customizations0 ''raiffeisen.2001-20--1.sslip.io.'' = [0x20, 0x01, 0, 0x20, 0, 0, 0, 0, 0, 0, 0, 0, 0, 0, 0, 1]
   \<and> blocklist Customizations0 exampleBlocklist ''raiffeisen.2001-20--1.sslip.io.''
   \<and> blocklistIP Customizations0 ''raiffeisen.64-ff9b-1--1.sslip.io.'' = [0, 0x64, 0xff, 0x9b, 0, 1, 0, 0, 0, 0, 0, 0, 0, 0, 0, 1]
   \<and> blocklist Customizations0 exampleBlocklist ''raiffeisen.64-ff9b-1--1.sslip.io.''"
  using C2_cex_loopback C2_cex_cgnat C2_cex_linklocal C2_cex_loopback6 C2_cex_linklocal6
    C2_cex_doc6 C2_cex_orchid C2_cex_translation
  by blast

section \<open>ACME challenges are referred (C3)\<close>

text \<open>
  C3, as the code has it. For every question whose name (at most 255 bytes, as every
  \<open>Name\<close>) is an ACME challenge name (it contains \<^verbatim>\<open>_acme-challenge.\<close> in any letter
  case and has A or AAAA records) and is not on the blocklist, whatever its type: the
  response is not authoritative, has no answer, and its authority section holds one NS
  record whose name is the queried name with every occurrence of \<^verbatim>\<open>_acme-challenge.\<close>
  cut out; the counter of DNS-01 challenges grows by one.
\<close>

theorem C3_acme_referral:
  assumes "IsAcmeChallenge cz (qName q)"
    and "\<not> blocklist cz x (qName q)"
    and "length (qName q) \<le> 255"
  shows "\<exists>r x'. processQuestion cz x q srcAddr = Inr (r, x')
           \<and> \<not> Authoritative (Header r)
           \<and> Answers r = []
           \<and> written (Authorities r) =
                [(rrHeader (qName q) TypeNS 604800,
                  BodyNS (ReplaceAllEmpty dns01ChallengeRE 0 (qName q)))]
           \<and> AnsweredNSDNS01ChallengeQueries (Metrics x') =
                AnsweredNSDNS01ChallengeQueries (Metrics x) + 1"
proof -
  obtain r where "processQuestion cz x q srcAddr = Inr (r, incAnsweredNSDNS01ChallengeQueries x)"
    and "\<not> Authoritative (Header r)" and "Answers r = []"
    and "Authorities r = [[B_NS (rrHeader (qName q) TypeNS 604800)
                                    (ReplaceAllEmpty dns01ChallengeRE 0 (qName q))]]"
    using acme_referral [OF assms] by blast
  then show ?thesis
    by (simp add: build_def rrHeader_def incAnsweredNSDNS01ChallengeQueries_def)
qed

text \<open>The NS question for \<^verbatim>\<open>_acme-challenge.1-2-3-4.example.com.\<close> is referred to
  \<^verbatim>\<open>1-2-3-4.example.com.\<close>\<close>

lemma C3_ex_acme: "IsAcmeChallenge Customizations0 ''_acme-challenge.1-2-3-4.example.com.''"
  by code_simp

lemma C3_ex_blocklist: "\<not> blocklist Customizations0 newXip ''_acme-challenge.1-2-3-4.example.com.''"
  by code_simp

lemma C3_ex_strip:
  "ReplaceAllEmpty dns01ChallengeRE 0 ''_acme-challenge.1-2-3-4.example.com.'' = ''1-2-3-4.example.com.''"
  by code_simp

theorem C3_witness:
  "\<exists>r x'. processQuestion Customizations0 newXip
              (Question ''_acme-challenge.1-2-3-4.example.com.'' TypeNS ClassINET) [] = Inr (r, x')
           \<and> \<not> Authoritative (Header r)
           \<and> Answers r = []
           \<and> written (Authorities r) =
                [(rrHeader ''_acme-challenge.1-2-3-4.example.com.'' TypeNS 604800,
                  BodyNS ''1-2-3-4.example.com.'')]
           \<and> AnsweredNSDNS01ChallengeQueries (Metrics x') = 1"
proof -
  let ?q = "Question ''_acme-challenge.1-2-3-4.example.com.'' TypeNS ClassINET"
  have 1: "IsAcmeChallenge Customizations0 (qName ?q)" using C3_ex_acme by simp
  have 2: "\<not> blocklist Customizations0 newXip (qName ?q)" using C3_ex_blocklist by simp
  have 3: "length (qName ?q) \<le> 255" by simp
  have 4: "AnsweredNSDNS01ChallengeQueries (Metrics newXip) = 0" by (simp add: newXip_def)
  show ?thesis
    using C3_acme_referral [OF 1 2 3, of "[]"] C3_ex_strip 4 by simp
qed

text \<open>
  The claim removes a prefix. In a name that starts with \<^verbatim>\<open>_acme-challenge.\<close> twice
  the code cuts out both, so the NS name is not the name without its prefix.
\<close>

lemma C3_cex_acme:
  "IsAcmeChallenge Customizations0 ''_acme-challenge._acme-challenge.1-2-3-4.example.com.''"
  by code_simp

lemma C3_cex_blocklist:
  "\<not> blocklist Customizations0 newXip ''_acme-challenge._acme-challenge.1-2-3-4.example.com.''"
  by code_simp

lemma C3_cex_strip:
  "ReplaceAllEmpty dns01ChallengeRE 0 ''_acme-challenge._acme-challenge.1-2-3-4.example.com.'' =
     ''1-2-3-4.example.com.''"
  by code_simp

theorem C3_counterexample:
  "\<exists>r x'. processQuestion Customizations0 newXip
              (Question (''_acme-challenge.'' @ ''_acme-challenge.1-2-3-4.example.com.'') TypeNS ClassINET) []
              = Inr (r, x')
           \<and> written (Authorities r) =
                [(rrHeader (''_acme-challenge.'' @ ''_acme-challenge.1-2-3-4.example.com.'') TypeNS 604800,
                  BodyNS ''1-2-3-4.example.com.'')]
           \<and> ''1-2-3-4.example.com.'' \<noteq> ''_acme-challenge.1-2-3-4.example.com.''"
proof -
  let ?q = "Question ''_acme-challenge._acme-challenge.1-2-3-4.example.com.'' TypeNS ClassINET"
  have 1: "IsAcmeChallenge Customizations0 (qName ?q)" using C3_cex_acme by simp
  have 2: "\<not> blocklist Customizations0 newXip (qName ?q)" using C3_cex_blocklist by simp
  have 3: "length (qName ?q) \<le> 255" by simp
  show ?thesis
    using acme_referral [OF 1 2 3, of "[]"] C3_cex_strip
    by (auto simp add: build_def rrHeader_def)
qed

section \<open>Names with several literals (C4)\<close>

text \<open>
  C4, as the code has it. For every name without A and AAAA customization: if the
  dashed IPv4 pattern matches, the record of \<open>NameToA\<close> is that of the leftmost
  dashed literal, wherever the dotted literals are; if it does not and the dotted
  pattern matches, that of the leftmost dotted literal; and if the IPv6 pattern
  matches, the record of \<open>NameToAAAA\<close> is that of the leftmost IPv6 literal, the
  longest one from where it starts.
\<close>

theorem C4_leftmost_per_pattern:
  assumes "cz (ToLower fqdn) = None \<or> (\<exists>d. cz (ToLower fqdn) = Some d \<and> A d = [] \<and> AAAA d = [])"
  shows "(leftmostAt ipv4REDashes fqdn p \<longrightarrow>
            NameToA cz fqdn = aRecords (literalAt ipv4REDashes fqdn p))
       \<and> (noMatch ipv4REDashes fqdn \<and> leftmostAt ipv4REDots fqdn p \<longrightarrow>
            NameToA cz fqdn = aRecords (literalAt ipv4REDots fqdn p))
       \<and> (leftmostAt ipv6RE fqdn p \<longrightarrow>
            NameToAAAA cz fqdn = aaaaRecords (longestLiteralAt ipv6RE fqdn p))"
proof (intro conjI impI)
  have a: "NameToA cz fqdn = NameToA_patterns [ipv4REDashes, ipv4REDots] fqdn"
    using assms by (auto simp add: NameToA_def)
  have aaaa: "NameToAAAA cz fqdn = NameToAAAA_pattern fqdn"
    using assms by (auto simp add: NameToAAAA_def)
  {
    assume l: "leftmostAt ipv4REDashes fqdn p"
    show "NameToA cz fqdn = aRecords (literalAt ipv4REDashes fqdn p)"
      using a leftmostAt_search(1,2) [OF l] by (simp only: NameToA_patterns_aRecords if_True)
  next
    assume l: "noMatch ipv4REDashes fqdn \<and> leftmostAt ipv4REDots fqdn p"
    then have n: "\<not> Match ipv4REDashes fqdn" using noMatch_Match by blast
    from l have d: "leftmostAt ipv4REDots fqdn p" by simp
    show "NameToA cz fqdn = aRecords (literalAt ipv4REDots fqdn p)"
      using a n leftmostAt_search(1,2) [OF d]
      by (simp only: NameToA_patterns_aRecords if_True if_False)
  next
    assume l: "leftmostAt ipv6RE fqdn p"
    show "NameToAAAA cz fqdn = aaaaRecords (longestLiteralAt ipv6RE fqdn p)"
      using aaaa leftmostAt_search(1,3) [OF l]
      by (simp only: NameToAAAA_pattern_aaaaRecords if_True)
  }
qed

text \<open>
  Two dashed literals, two dotted ones, and two IPv6 ones: the first of each pair is
  returned.
\<close>

lemma C4_ex_lower:
  "ToLower ''www.10-0-0-1.192-168-0-1.sslip.io'' = ''www.10-0-0-1.192-168-0-1.sslip.io''"
  "ToLower ''nono.io.127.0.0.1.192.168.0.1.sslip.io'' = ''nono.io.127.0.0.1.192.168.0.1.sslip.io''"
  "ToLower ''a.2001-db8--1.--2.sslip.io'' = ''a.2001-db8--1.--2.sslip.io''"
  "ToLower ''nono.io.127.0.0.1.192-168-0-1.sslip.io'' = ''nono.io.127.0.0.1.192-168-0-1.sslip.io''"
  by code_simp+

lemma C4_ex_lookup:
  "Customizations0 (ToLower ''www.10-0-0-1.192-168-0-1.sslip.io'') = None"
  "Customizations0 (ToLower ''nono.io.127.0.0.1.192.168.0.1.sslip.io'') = None"
  "Customizations0 (ToLower ''a.2001-db8--1.--2.sslip.io'') = None"
  "Customizations0 (ToLower ''nono.io.127.0.0.1.192-168-0-1.sslip.io'') = None"
  unfolding C4_ex_lower by (simp_all add: Customizations0_def Customizations_def)

lemma C4_ex1:
  "leftmostAt ipv4REDashes ''www.10-0-0-1.192-168-0-1.sslip.io'' 3"
  "aRecords (literalAt ipv4REDashes ''www.10-0-0-1.192-168-0-1.sslip.io'' 3) = [[10, 0, 0, 1]]"
  by code_simp+

lemma C4_ex2:
  "noMatch ipv4REDashes ''nono.io.127.0.0.1.192.168.0.1.sslip.io''"
  "leftmostAt ipv4REDots ''nono.io.127.0.0.1.192.168.0.1.sslip.io'' 7"
  "aRecords (literalAt ipv4REDots ''nono.io.127.0.0.1.192.168.0.1.sslip.io'' 7) = [[127, 0, 0, 1]]"
  by code_simp+

lemma C4_ex3:
  "leftmostAt ipv6RE ''a.2001-db8--1.--2.sslip.io'' 1"
  "aaaaRecords (longestLiteralAt ipv6RE ''a.2001-db8--1.--2.sslip.io'' 1)
     = [[0x20, 0x01, 0x0d, 0xb8, 0, 0, 0, 0, 0, 0, 0, 0, 0, 0, 0, 1]]"
  by code_simp+

theorem C4_witness:
  "NameToA Customizations0 ''www.10-0-0-1.192-168-0-1.sslip.io'' = [[10, 0, 0, 1]]
   \<and> NameToA Customizations0 ''nono.io.127.0.0.1.192.168.0.1.sslip.io'' = [[127, 0, 0, 1]]
   \<and> NameToAAAA Customizations0 ''a.2001-db8--1.--2.sslip.io''
       = [[0x20, 0x01, 0x0d, 0xb8, 0, 0, 0, 0, 0, 0, 0, 0, 0, 0, 0, 1]]"
proof (intro conjI)
  show "NameToA Customizations0 ''www.10-0-0-1.192-168-0-1.sslip.io'' = [[10, 0, 0, 1]]"
    using C4_leftmost_per_pattern [of Customizations0 "''www.10-0-0-1.192-168-0-1.sslip.io''" 3]
      C4_ex_lookup(1) C4_ex1 by simp
  show "NameToA Customizations0 ''nono.io.127.0.0.1.192.168.0.1.sslip.io'' = [[127, 0, 0, 1]]"
    using C4_leftmost_per_pattern [of Customizations0 "''nono.io.127.0.0.1.192.168.0.1.sslip.io''" 7]
      C4_ex_lookup(2) C4_ex2 by simp
  show "NameToAAAA Customizations0 ''a.2001-db8--1.--2.sslip.io''
       = [[0x20, 0x01, 0x0d, 0xb8, 0, 0, 0, 0, 0, 0, 0, 0, 0, 0, 0, 1]]"
    using C4_leftmost_per_pattern [of Customizations0 "''a.2001-db8--1.--2.sslip.io''" 1]
      C4_ex_lookup(3) C4_ex3 by simp
qed

text \<open>
  In \<^verbatim>\<open>nono.io.127.0.0.1.192-168-0-1.sslip.io\<close> the leftmost literal is the dotted
  127.0.0.1, from offset 7; the dashed 192-168-0-1 starts at offset 17 and is the one
  returned.
\<close>

lemma C4_cex_run:
  "leftmostAt ipv4REDots ''nono.io.127.0.0.1.192-168-0-1.sslip.io'' 7
   \<and> literalAt ipv4REDots ''nono.io.127.0.0.1.192-168-0-1.sslip.io'' 7 = ''127.0.0.1''
   \<and> aRecords ''127.0.0.1'' = [[127, 0, 0, 1]]
   \<and> leftmostAt ipv4REDashes ''nono.io.127.0.0.1.192-168-0-1.sslip.io'' 17
   \<and> literalAt ipv4REDashes ''nono.io.127.0.0.1.192-168-0-1.sslip.io'' 17 = ''192-168-0-1''
   \<and> NameToA Customizations0 ''nono.io.127.0.0.1.192-168-0-1.sslip.io'' = [[192, 168, 0, 1]]"
  by code_simp

theorem C4_counterexample:
  "leftmostAt ipv4REDots ''nono.io.127.0.0.1.192-168-0-1.sslip.io'' 7
   \<and> literalAt ipv4REDots ''nono.io.127.0.0.1.192-168-0-1.sslip.io'' 7 = ''127.0.0.1''
   \<and> aRecords ''127.0.0.1'' = [[127, 0, 0, 1]]
   \<and> leftmostAt ipv4REDashes ''nono.io.127.0.0.1.192-168-0-1.sslip.io'' 17
   \<and> literalAt ipv4REDashes ''nono.io.127.0.0.1.192-168-0-1.sslip.io'' 17 = ''192-168-0-1''
   \<and> Customizations0 (ToLower ''nono.io.127.0.0.1.192-168-0-1.sslip.io'') = None
   \<and> NameToA Customizations0 ''nono.io.127.0.0.1.192-168-0-1.sslip.io'' = [[192, 168, 0, 1]]"
  using C4_cex_run C4_ex_lookup(4) by simp

section \<open>Customizations come first (C5)\<close>

text \<open>
  C5. For every FQDN for which the table has an entry under the lowercased name, a
  non-empty \<open>A\<close> set of that entry is what \<open>NameToA\<close> returns, and a non-empty
  \<open>AAAA\<close> set is what \<open>NameToAAAA\<close> returns: the patterns are not consulted, whether
  or not the name embeds an address.
\<close>

theorem C5_customization_preempts:
  assumes "cz (ToLower fqdn) = Some d"
  shows "(A d \<noteq> [] \<longrightarrow> NameToA cz fqdn = A d) \<and> (AAAA d \<noteq> [] \<longrightarrow> NameToAAAA cz fqdn = AAAA d)"
  using assms by (simp add: NameToA_def NameToAAAA_def)

lemma C5_lower: "ToLower ''10-0-0-1.Example.COM.'' = ''10-0-0-1.example.com.''"
  by code_simp

lemma C5_pattern: "NameToA Map.empty ''10-0-0-1.Example.COM.'' = [[10, 0, 0, 1]]"
  by code_simp

text \<open>
  An entry for \<^verbatim>\<open>10-0-0-1.example.com.\<close> answers the query for
  \<^verbatim>\<open>10-0-0-1.Example.COM.\<close>, which without the entry resolves to 10.0.0.1.
\<close>

theorem C5_witness:
  "NameToA [''10-0-0-1.example.com.'' \<mapsto> noCustomization\<lparr>A := [[78, 46, 204, 247]],
        AAAA := [[42, 1, 4, 248, 12, 23, 11, 143, 0, 0, 0, 0, 0, 0, 0, 2]]\<rparr>]
      ''10-0-0-1.Example.COM.'' = [[78, 46, 204, 247]]
   \<and> NameToAAAA [''10-0-0-1.example.com.'' \<mapsto> noCustomization\<lparr>A := [[78, 46, 204, 247]],
        AAAA := [[42, 1, 4, 248, 12, 23, 11, 143, 0, 0, 0, 0, 0, 0, 0, 2]]\<rparr>]
      ''10-0-0-1.Example.COM.'' = [[42, 1, 4, 248, 12, 23, 11, 143, 0, 0, 0, 0, 0, 0, 0, 2]]
   \<and> NameToA Map.empty ''10-0-0-1.Example.COM.'' = [[10, 0, 0, 1]]"
  using C5_customization_preempts [of "[''10-0-0-1.example.com.'' \<mapsto> noCustomization\<lparr>A := [[78, 46, 204, 247]], AAAA := [[42, 1, 4, 248, 12, 23, 11, 143, 0, 0, 0, 0, 0, 0, 0, 2]]\<rparr>]" "''10-0-0-1.Example.COM.''"
      "noCustomization\<lparr>A := [[78, 46, 204, 247]], AAAA := [[42, 1, 4, 248, 12, 23, 11, 143, 0, 0, 0, 0, 0, 0, 0, 2]]\<rparr>"]
    C5_pattern
  by (simp add: noCustomization_def C5_lower)

section \<open>The key-value round trip (C6)\<close>

text \<open>
  C6, as the code has it. With the local key-value store, for every key \<open>K\<close> that is
  one label (no dot) and every value \<open>V\<close> of at most 63 bytes, provided none of the
  three names is an ACME challenge name (those are referred to another name server before
  the question's type is looked at): the TXT question for \<^verbatim>\<open>put.V.K.k-v.io.\<close> followed by
  the TXT question for \<^verbatim>\<open>K.k-v.io.\<close> answers with the single TXT record \<open>V\<close>, and
  after the TXT question for \<^verbatim>\<open>delete.K.k-v.io.\<close> the TXT question for \<^verbatim>\<open>K.k-v.io.\<close>
  has no answer.
\<close>

theorem C6_kv_round_trip:
  assumes local: "Etcd x = None"
    and key: "CHR ''.'' \<notin> set K"
    and len: "length V \<le> 63"
    and put: "\<not> IsAcmeChallenge cz (''put.'' @ V @ ''.'' @ K @ ''.k-v.io.'')"
    and get: "\<not> IsAcmeChallenge cz (K @ ''.k-v.io.'')"
    and del: "\<not> IsAcmeChallenge cz (''delete.'' @ K @ ''.k-v.io.'')"
  shows "\<exists>r1 x1 r2 x2 r3 x3 r4 x4.
           processQuestion cz x (Question (''put.'' @ V @ ''.'' @ K @ ''.k-v.io.'') TypeTXT cl) srcAddr
             = Inr (r1, x1)
         \<and> written (Answers r1) =
             [(rrHeader (''put.'' @ V @ ''.'' @ K @ ''.k-v.io.'') TypeTXT 180, BodyTXT [V])]
         \<and> processQuestion cz x1 (Question (K @ ''.k-v.io.'') TypeTXT cl) srcAddr = Inr (r2, x2)
         \<and> written (Answers r2) = [(rrHeader (K @ ''.k-v.io.'') TypeTXT 180, BodyTXT [V])]
         \<and> processQuestion cz x2 (Question (''delete.'' @ K @ ''.k-v.io.'') TypeTXT cl) srcAddr = Inr (r3, x3)
         \<and> written (Answers r3) = []
         \<and> processQuestion cz x3 (Question (K @ ''.k-v.io.'') TypeTXT cl) srcAddr = Inr (r4, x4)
         \<and> written (Answers r4) = []"
proof -
  let ?k = "ToLower K"
  have dp: "CHR ''.'' \<notin> set ''put''" and dd: "CHR ''.'' \<notin> set ''delete''" by simp_all
  \<comment> \<open>the put\<close>
  have "kvTXTResources x (''put'' @ ''.'' @ V @ ''.'' @ K @ ''.k-v.io.'') =
          Inr ([[V]], x\<lparr>TxtKvCustomizations := (TxtKvCustomizations x)(?k \<mapsto> [[V]])\<rparr>)"
    using kv_verb_value_key [OF dp key, of x V] putKv_local [OF local, of ?k V] len lower_verbs
    by simp
  then have kp: "kvTXTResources x ((''put.'' @ V @ ''.'' @ K) @ ''.k-v.io.'') =
          Inr ([[V]], x\<lparr>TxtKvCustomizations := (TxtKvCustomizations x)(?k \<mapsto> [[V]])\<rparr>)"
    by simp
  have ap: "\<not> IsAcmeChallenge cz ((''put.'' @ V @ ''.'' @ K) @ ''.k-v.io.'')"
    using put by simp
  obtain r1 x1 where
    1: "processQuestion cz x (Question ((''put.'' @ V @ ''.'' @ K) @ ''.k-v.io.'') TypeTXT cl) srcAddr
          = Inr (r1, x1)"
    and w1: "written (Answers r1) =
          map (\<lambda>txt. (rrHeader ((''put.'' @ V @ ''.'' @ K) @ ''.k-v.io.'') TypeTXT 180, BodyTXT txt)) [[V]]"
    and s1: "TxtKvCustomizations x1 = (TxtKvCustomizations x)(?k \<mapsto> [[V]])"
    and e1: "Etcd x1 = None"
    using kv_query [OF ap kp, of cl srcAddr] local by auto
  \<comment> \<open>the first get\<close>
  have kg: "kvTXTResources x1 (K @ ''.k-v.io.'') = Inr ([[V]], x1)"
    using kv_get [OF key, of x1] getKv_local [OF e1, of ?k] s1 by simp
  obtain r2 x2 where
    2: "processQuestion cz x1 (Question (K @ ''.k-v.io.'') TypeTXT cl) srcAddr = Inr (r2, x2)"
    and w2: "written (Answers r2) = map (\<lambda>txt. (rrHeader (K @ ''.k-v.io.'') TypeTXT 180, BodyTXT txt)) [[V]]"
    and s2: "TxtKvCustomizations x2 = TxtKvCustomizations x1"
    and e2: "Etcd x2 = None"
    using kv_query [OF get kg, of cl srcAddr] e1 by auto
  \<comment> \<open>the delete\<close>
  have "kvTXTResources x2 (''delete'' @ ''.'' @ K @ ''.k-v.io.'') =
          Inr ([], x2\<lparr>TxtKvCustomizations := (TxtKvCustomizations x2)(?k := None)\<rparr>)"
    using kv_verb_key [OF dd key, of x2] deleteKv_local [OF e2, of ?k] lower_verbs by simp
  then have kd: "kvTXTResources x2 ((''delete.'' @ K) @ ''.k-v.io.'') =
          Inr ([], x2\<lparr>TxtKvCustomizations := (TxtKvCustomizations x2)(?k := None)\<rparr>)"
    by simp
  have ad: "\<not> IsAcmeChallenge cz ((''delete.'' @ K) @ ''.k-v.io.'')"
    using del by simp
  obtain r3 x3 where
    3: "processQuestion cz x2 (Question ((''delete.'' @ K) @ ''.k-v.io.'') TypeTXT cl) srcAddr = Inr (r3, x3)"
    and w3: "written (Answers r3) =
          map (\<lambda>txt. (rrHeader ((''delete.'' @ K) @ ''.k-v.io.'') TypeTXT 180, BodyTXT txt)) []"
    and s3: "TxtKvCustomizations x3 = (TxtKvCustomizations x2)(?k := None)"
    and e3: "Etcd x3 = None"
    using kv_query [OF ad kd, of cl srcAddr] e2 by auto
  \<comment> \<open>the second get\<close>
  have kg': "kvTXTResources x3 (K @ ''.k-v.io.'') = Inr ([], x3)"
    using kv_get [OF key, of x3] getKv_local [OF e3, of ?k] s3 by simp
  obtain r4 x4 where
    4: "processQuestion cz x3 (Question (K @ ''.k-v.io.'') TypeTXT cl) srcAddr = Inr (r4, x4)"
    and w4: "written (Answers r4) = map (\<lambda>txt. (rrHeader (K @ ''.k-v.io.'') TypeTXT 180, BodyTXT txt)) []"
    using kv_query [OF get kg', of cl srcAddr] by auto
  show ?thesis
    using 1 w1 2 w2 3 w3 4 w4 by (intro exI [of _ r1] exI [of _ x1] exI [of _ r2] exI [of _ x2]
        exI [of _ r3] exI [of _ x3] exI [of _ r4] exI [of _ x4]) simp
qed

text \<open>The value \<^verbatim>\<open>94.0.2\<close> under the key \<^verbatim>\<open>Firefox-Version\<close>.\<close>

lemma C6_ex_put: "\<not> IsAcmeChallenge Customizations0 ''put.94.0.2.Firefox-Version.k-v.io.''"
  by code_simp

lemma C6_ex_get: "\<not> IsAcmeChallenge Customizations0 ''Firefox-Version.k-v.io.''"
  by code_simp

lemma C6_ex_del: "\<not> IsAcmeChallenge Customizations0 ''delete.Firefox-Version.k-v.io.''"
  by code_simp

theorem C6_witness:
  "\<exists>r1 x1 r2 x2 r3 x3 r4 x4.
      processQuestion Customizations0 newXip
        (Question ''put.94.0.2.Firefox-Version.k-v.io.'' TypeTXT ClassINET) [] = Inr (r1, x1)
    \<and> processQuestion Customizations0 x1
        (Question ''Firefox-Version.k-v.io.'' TypeTXT ClassINET) [] = Inr (r2, x2)
    \<and> written (Answers r2) = [(rrHeader ''Firefox-Version.k-v.io.'' TypeTXT 180, BodyTXT [''94.0.2''])]
    \<and> processQuestion Customizations0 x2
        (Question ''delete.Firefox-Version.k-v.io.'' TypeTXT ClassINET) [] = Inr (r3, x3)
    \<and> processQuestion Customizations0 x3
        (Question ''Firefox-Version.k-v.io.'' TypeTXT ClassINET) [] = Inr (r4, x4)
    \<and> written (Answers r4) = []"
proof -
  have 1: "Etcd newXip = None" by (simp add: newXip_def)
  have 2: "CHR ''.'' \<notin> set ''Firefox-Version''" by simp
  have 3: "length ''94.0.2'' \<le> 63" by simp
  have 4: "\<not> IsAcmeChallenge Customizations0 (''put.'' @ ''94.0.2'' @ ''.'' @ ''Firefox-Version'' @ ''.k-v.io.'')"
    using C6_ex_put by simp
  have 5: "\<not> IsAcmeChallenge Customizations0 (''Firefox-Version'' @ ''.k-v.io.'')"
    using C6_ex_get by simp
  have 6: "\<not> IsAcmeChallenge Customizations0 (''delete.'' @ ''Firefox-Version'' @ ''.k-v.io.'')"
    using C6_ex_del by simp
  show ?thesis
    using C6_kv_round_trip [OF 1 2 3 4 5 6, of ClassINET "[]"] by simp blast
qed

text \<open>
  The claim is for every value. The value \<^verbatim>\<open>_acme-challenge.10-0-0-1\<close> makes the name
  of the put an ACME challenge name: the question is answered by a referral, nothing is
  stored, and the question for the key has no answer.
\<close>

lemma C6_cex_acme: "IsAcmeChallenge Customizations0 ''put._acme-challenge.10-0-0-1.mykey.k-v.io.''"
  by code_simp

lemma C6_cex_blocklist: "\<not> blocklist Customizations0 newXip ''put._acme-challenge.10-0-0-1.mykey.k-v.io.''"
  by code_simp

lemma C6_cex_get: "\<not> IsAcmeChallenge Customizations0 ''mykey.k-v.io.''"
  by code_simp

theorem C6_counterexample:
  "Etcd newXip = None \<and> CHR ''.'' \<notin> set ''mykey'' \<and> length ''_acme-challenge.10-0-0-1'' \<le> 63
   \<and> (\<exists>r1 x1 r2 x2.
         processQuestion Customizations0 newXip
           (Question (''put.'' @ ''_acme-challenge.10-0-0-1'' @ ''.'' @ ''mykey'' @ ''.k-v.io.'') TypeTXT ClassINET) []
           = Inr (r1, x1)
       \<and> Answers r1 = []
       \<and> processQuestion Customizations0 x1
           (Question (''mykey'' @ ''.k-v.io.'') TypeTXT ClassINET) [] = Inr (r2, x2)
       \<and> written (Answers r2) = [])"
proof -
  let ?q = "Question ''put._acme-challenge.10-0-0-1.mykey.k-v.io.'' TypeTXT ClassINET"
  let ?x1 = "incAnsweredNSDNS01ChallengeQueries newXip"
  have 1: "IsAcmeChallenge Customizations0 (qName ?q)" using C6_cex_acme by simp
  have 2: "\<not> blocklist Customizations0 newXip (qName ?q)" using C6_cex_blocklist by simp
  have 3: "length (qName ?q) \<le> 255" by simp
  obtain r1 where r1: "processQuestion Customizations0 newXip ?q [] = Inr (r1, ?x1)"
    and a1: "Answers r1 = []"
    using acme_referral [OF 1 2 3, of "[]"] by blast
  have e: "Etcd ?x1 = None" and t: "TxtKvCustomizations ?x1 = Map.empty"
    by (simp_all add: newXip_def incAnsweredNSDNS01ChallengeQueries_def)
  have k: "CHR ''.'' \<notin> set ''mykey''" by simp
  have g: "kvTXTResources ?x1 (''mykey'' @ ''.k-v.io.'') = Inr ([], ?x1)"
    using kv_get [OF k, of ?x1] getKv_local [OF e] t by simp
  have na: "\<not> IsAcmeChallenge Customizations0 (''mykey'' @ ''.k-v.io.'')"
    using C6_cex_get by simp
  obtain r2 x2 where r2: "processQuestion Customizations0 ?x1
        (Question (''mykey'' @ ''.k-v.io.'') TypeTXT ClassINET) [] = Inr (r2, x2)"
    and w2: "written (Answers r2) = []"
    using kv_query [OF na g, of ClassINET "[]"] by auto
  have "\<exists>r1 x1 r2 x2.
         processQuestion Customizations0 newXip ?q [] = Inr (r1, x1)
       \<and> Answers r1 = []
       \<and> processQuestion Customizations0 x1
           (Question (''mykey'' @ ''.k-v.io.'') TypeTXT ClassINET) [] = Inr (r2, x2)
       \<and> written (Answers r2) = []"
    using r1 a1 r2 w2 by blast
  then show ?thesis by (simp add: newXip_def)
qed

section \<open>Malformed and oversized key-value commands (C7)\<close>

text \<open>
  C7, as the code has it. The verb and the key are labels (no dot). A put keeps the
  first 63 bytes of its value: with the local store it records them under the lowercased
  key and returns them as one TXT record; with etcd it returns them when the etcd
  \<open>Put\<close> of these 63 bytes succeeds. A put with no value returns the one TXT
  \<^verbatim>\<open>422: missing a value: put.value.key.k-v.io\<close>, and a verb other than get, put and
  delete returns the one TXT \<^verbatim>\<open>422: valid verbs are get, put, delete\<close>; these two
  leave the state alone. None of these cases is an error.
\<close>

theorem C7_kv_malformed_and_oversized:
  assumes "CHR ''.'' \<notin> set verb" and "CHR ''.'' \<notin> set K"
  shows "(ToLower verb = ''put'' \<and> Etcd x = None \<longrightarrow>
            kvTXTResources x (verb @ ''.'' @ V @ ''.'' @ K @ ''.k-v.io.'') =
              Inr ([[take 63 V]],
                   x\<lparr>TxtKvCustomizations := (TxtKvCustomizations x)(ToLower K \<mapsto> [[take 63 V]])\<rparr>))
       \<and> (ToLower verb = ''put'' \<and> Etcd x = Some etcd \<and> Put etcd (ToLower K) (take 63 V) = None \<longrightarrow>
            kvTXTResources x (verb @ ''.'' @ V @ ''.'' @ K @ ''.k-v.io.'') = Inr ([[take 63 V]], x))
       \<and> (ToLower verb = ''put'' \<longrightarrow>
            kvTXTResources x (verb @ ''.'' @ K @ ''.k-v.io.'') =
              Inr ([[''422: missing a value: put.value.key.k-v.io'']], x))
       \<and> (ToLower verb \<notin> {''get'', ''put'', ''delete''} \<longrightarrow>
            kvTXTResources x (verb @ ''.'' @ V @ ''.k-v.io.'') =
              Inr ([[''422: valid verbs are get, put, delete'']], x))"
proof (intro conjI impI)
  assume a: "ToLower verb = ''put'' \<and> Etcd x = None"
  show "kvTXTResources x (verb @ ''.'' @ V @ ''.'' @ K @ ''.k-v.io.'') =
          Inr ([[take 63 V]],
               x\<lparr>TxtKvCustomizations := (TxtKvCustomizations x)(ToLower K \<mapsto> [[take 63 V]])\<rparr>)"
    using a kv_verb_value_key [OF assms, of x V] putKv_local [of x "ToLower K" V] by simp
next
  assume a: "ToLower verb = ''put'' \<and> Etcd x = Some etcd \<and> Put etcd (ToLower K) (take 63 V) = None"
  show "kvTXTResources x (verb @ ''.'' @ V @ ''.'' @ K @ ''.k-v.io.'') = Inr ([[take 63 V]], x)"
    using a kv_verb_value_key [OF assms, of x V] putKv_etcd [of x etcd "ToLower K" V] by simp
next
  assume a: "ToLower verb = ''put''"
  show "kvTXTResources x (verb @ ''.'' @ K @ ''.k-v.io.'') =
          Inr ([[''422: missing a value: put.value.key.k-v.io'']], x)"
    using a kv_verb_key [OF assms, of x] by simp
next
  assume a: "ToLower verb \<notin> {''get'', ''put'', ''delete''}"
  show "kvTXTResources x (verb @ ''.'' @ V @ ''.k-v.io.'') =
          Inr ([[''422: valid verbs are get, put, delete'']], x)"
    using kv_bad_verb [OF assms(1) a, of x V] by simp
qed

text \<open>A value of 64 bytes, a put without a value and the verb \<^verbatim>\<open>post\<close>, on the local store.\<close>

lemma C7_ex_take:
  "take 63 ''0123456789012345678901234567890123456789012345678901234567890123'' =
     ''012345678901234567890123456789012345678901234567890123456789012''"
  by code_simp

lemma C7_ex_lower: "ToLower ''PUT'' = ''put''" "ToLower ''Key'' = ''key''" "ToLower ''post'' = ''post''"
  by code_simp+

theorem C7_witness:
  "kvTXTResources newXip ''PUT.0123456789012345678901234567890123456789012345678901234567890123.Key.k-v.io.'' =
     Inr ([[''012345678901234567890123456789012345678901234567890123456789012'']],
          newXip\<lparr>TxtKvCustomizations := [''key'' \<mapsto> [[''012345678901234567890123456789012345678901234567890123456789012'']]]\<rparr>)
   \<and> kvTXTResources newXip ''PUT.Key.k-v.io.'' = Inr ([[''422: missing a value: put.value.key.k-v.io'']], newXip)
   \<and> kvTXTResources newXip ''post.0123456789012345678901234567890123456789012345678901234567890123.k-v.io.'' =
       Inr ([[''422: valid verbs are get, put, delete'']], newXip)"
proof -
  have 1: "CHR ''.'' \<notin> set ''PUT''" by simp
  have 2: "CHR ''.'' \<notin> set ''Key''" by simp
  have 3: "CHR ''.'' \<notin> set ''post''" by simp
  have e: "Etcd newXip = None" by (simp add: newXip_def)
  have t: "TxtKvCustomizations newXip = Map.empty" by (simp add: newXip_def)
  show ?thesis
    using C7_kv_malformed_and_oversized [OF 1 2, of newXip
        "''0123456789012345678901234567890123456789012345678901234567890123''"]
      C7_kv_malformed_and_oversized [OF 3 2, of newXip
        "''0123456789012345678901234567890123456789012345678901234567890123''"]
      e t C7_ex_take C7_ex_lower
    by simp
qed

text \<open>
  The claim promises a nil error in all cases. With an etcd client whose \<open>Put\<close> fails,
  the put of a 64-byte value returns the wrapped error of the client and no record.
\<close>

theorem C7_counterexample:
  "kvTXTResources (newXip\<lparr>Etcd := Some failingEtcd\<rparr>)
     ''put.0123456789012345678901234567890123456789012345678901234567890123.key.k-v.io.'' =
   Inl (CouldntPUT ''key'' ''012345678901234567890123456789012345678901234567890123456789012''
          (EtcdError ''context deadline exceeded''))"
proof -
  have 1: "CHR ''.'' \<notin> set ''put''" by simp
  have 2: "CHR ''.'' \<notin> set ''key''" by simp
  have l: "ToLower ''key'' = ''key''" by code_simp
  show ?thesis
    using kv_verb_value_key [OF 1 2, of "newXip\<lparr>Etcd := Some failingEtcd\<rparr>"
        "''0123456789012345678901234567890123456789012345678901234567890123''"]
      putKv_etcd [of "newXip\<lparr>Etcd := Some failingEtcd\<rparr>" failingEtcd "''key''"
        "''0123456789012345678901234567890123456789012345678901234567890123''"]
      C7_ex_take l lower_verbs
    by (simp add: failingEtcd_def)
qed

section \<open>The sink for blocked AAAA questions (C8)\<close>

text \<open>
  C8. For every AAAA question whose name has AAAA records and is on the blocklist, the
  response has exactly one answer: the builder is called once, with the first AAAA of the
  entry \<^verbatim>\<open>ns-aws.sslip.io.\<close> of the table, and the record it writes is of type AAAA
  (the header the source passes says \<open>TypeA\<close>; the builder replaces it by the type of
  the body). The counter of blocked queries grows by one.
\<close>

theorem C8_blocked_AAAA_sink:
  assumes "qType q = TypeAAAA"
    and "NameToAAAA cz (qName q) \<noteq> []"
    and "blocklist cz x (qName q)"
    and "cz ''ns-aws.sslip.io.'' = Some sink"
    and "AAAA sink = a # as"
  shows "\<exists>r x'. processQuestion cz x q srcAddr = Inr (r, x')
           \<and> Answers r = [[B_AAAA (rrHeader (qName q) TypeA 604800) a]]
           \<and> written (Answers r) = [(rrHeader (qName q) TypeAAAA 604800, BodyAAAA a)]
           \<and> AnsweredBlockedQueries (Metrics x') = AnsweredBlockedQueries (Metrics x) + 1"
  using assms
  by (simp add: processQuestion_def nameToAAAAwithBlocklist_def types_distinct Let_def
      newResponse_def addAnswers_def build_def rrHeader_def
      incAnsweredBlockedQueries_def incAnsweredQueries_def)

lemma C8_ex1:
  "NameToAAAA Customizations0 ''raiffeisen.2001-4860-4860--8888.sslip.io.'' =
     [[0x20, 0x01, 0x48, 0x60, 0x48, 0x60, 0, 0, 0, 0, 0, 0, 0, 0, 0x88, 0x88]]"
  by code_simp

lemma C8_ex2:
  "blocklist Customizations0 (newXip\<lparr>BlocklistStrings := [''raiffeisen'']\<rparr>)
     ''raiffeisen.2001-4860-4860--8888.sslip.io.''"
  by code_simp

theorem C8_witness:
  "\<exists>r x'. processQuestion Customizations0 (newXip\<lparr>BlocklistStrings := [''raiffeisen'']\<rparr>)
              (Question ''raiffeisen.2001-4860-4860--8888.sslip.io.'' TypeAAAA ClassINET) [] = Inr (r, x')
           \<and> written (Answers r) = [(rrHeader ''raiffeisen.2001-4860-4860--8888.sslip.io.'' TypeAAAA 604800,
                 BodyAAAA [0x26, 0, 0x1f, 0x18, 0x0a, 0xaf, 0x69, 0, 0, 0, 0, 0, 0, 0, 0, 0xa])]
           \<and> AnsweredBlockedQueries (Metrics x') = 1"
proof -
  let ?q = "Question ''raiffeisen.2001-4860-4860--8888.sslip.io.'' TypeAAAA ClassINET"
  let ?x = "newXip\<lparr>BlocklistStrings := [''raiffeisen'']\<rparr>"
  let ?sink = "\<lparr>A = [[52, 0, 56, 137]],
         AAAA = [[0x26, 0, 0x1f, 0x18, 0x0a, 0xaf, 0x69, 0, 0, 0, 0, 0, 0, 0, 0, 0xa :: byte]],
         CNAME = [], MX = [], TXT = None\<rparr>"
  have 1: "qType ?q = TypeAAAA" by simp
  have 2: "NameToAAAA Customizations0 (qName ?q) \<noteq> []" using C8_ex1 by simp
  have 3: "blocklist Customizations0 ?x (qName ?q)" using C8_ex2 by simp
  have 4: "Customizations0 ''ns-aws.sslip.io.'' = Some ?sink"
    unfolding Customizations0_def by (rule sink_lookup)
  have 5: "AAAA ?sink = [0x26, 0, 0x1f, 0x18, 0x0a, 0xaf, 0x69, 0, 0, 0, 0, 0, 0, 0, 0, 0xa] # []"
    by simp
  have 6: "AnsweredBlockedQueries (Metrics ?x) = 0" by (simp add: newXip_def)
  show ?thesis
    using C8_blocked_AAAA_sink [OF 1 2 3 4 5, of "[]"] 6 by auto
qed

section \<open>MX records are never missing (C9)\<close>

text \<open>
  C9. For every FQDN string \<open>MXResources\<close> returns a non-empty list: the customised MX
  set when the table has one, otherwise exactly one MX of preference 0 whose exchange is
  the queried name (a name is at most 255 bytes long). So an MX question never ends in
  the error \<^verbatim>\<open>no MX records, but there should be one\<close>.
\<close>

theorem C9_mx_never_empty:
  "MXResources cz fqdn \<noteq> []
   \<and> (\<forall>d. cz (ToLower fqdn) = Some d \<and> MX d \<noteq> [] \<longrightarrow> MXResources cz fqdn = MX d)
   \<and> ((cz (ToLower fqdn) = None \<or> (\<exists>d. cz (ToLower fqdn) = Some d \<and> MX d = [])) \<and> length fqdn \<le> 255
        \<longrightarrow> MXResources cz fqdn = [MXResource 0 fqdn])
   \<and> (qType q = TypeMX \<longrightarrow> processQuestion cz x q srcAddr \<noteq> Inl NoMXRecords)"
proof (intro conjI)
  show "MXResources cz fqdn \<noteq> []" by (rule MXResources_nonempty)
  show "\<forall>d. cz (ToLower fqdn) = Some d \<and> MX d \<noteq> [] \<longrightarrow> MXResources cz fqdn = MX d"
    by (simp add: MXResources_def)
  show "(cz (ToLower fqdn) = None \<or> (\<exists>d. cz (ToLower fqdn) = Some d \<and> MX d = [])) \<and> length fqdn \<le> 255
        \<longrightarrow> MXResources cz fqdn = [MXResource 0 fqdn]"
    by (auto simp add: MXResources_def NewName_ignoring_error_def NewName_def)
  show "qType q = TypeMX \<longrightarrow> processQuestion cz x q srcAddr \<noteq> Inl NoMXRecords"
    using MXResources_nonempty [of cz "qName q"]
    by (simp add: processQuestion_def Let_def types_distinct)
qed

lemma C9_ex_lower: "ToLower ''127-0-0-1.sslip.io.'' = ''127-0-0-1.sslip.io.''"
  by code_simp

lemma C9_ex_lookup: "Customizations0 ''127-0-0-1.sslip.io.'' = None"
  by (simp add: Customizations0_def Customizations_def)

lemma C9_ex_custom:
  "MXResources Customizations0 ''sslIP.iO.'' = [MXResource 10 mx1, MXResource 20 mx2]"
  by code_simp

theorem C9_witness:
  "MXResources Customizations0 ''127-0-0-1.sslip.io.'' = [MXResource 0 ''127-0-0-1.sslip.io.'']
   \<and> MXResources Customizations0 ''sslIP.iO.'' = [MXResource 10 mx1, MXResource 20 mx2]
   \<and> processQuestion Customizations0 newXip (Question ''127-0-0-1.sslip.io.'' TypeMX ClassINET) []
       \<noteq> Inl NoMXRecords"
  using C9_mx_never_empty [of Customizations0 "''127-0-0-1.sslip.io.''"
      "Question ''127-0-0-1.sslip.io.'' TypeMX ClassINET" newXip "[]"]
    C9_ex_lower C9_ex_lookup C9_ex_custom
  by simp

section \<open>Blocked substrings are matched case-sensitively (C10)\<close>

text \<open>
  C10. \<open>ReadBlocklist\<close> lowercases every substring it returns, and \<open>blocklist\<close>
  looks for them in the hostname as it was queried: when the blocked substrings are
  those of a blocklist file, every occurrence of one in the hostname (letter case
  ignored) has a capital letter, and the address of the hostname lies in none of the
  blocked networks, \<open>blocklist\<close> returns false.
\<close>

theorem C10_substrings_case_sensitive:
  assumes "ReadBlocklist scanned None = Inr (strs, cidrs)"
    and "BlocklistStrings x = strs"
    and "list_all (onlyUppercased hostname) strs"
    and "\<not> list_ex (\<lambda>blockCDIR. IPNet_Contains blockCDIR (blocklistIP cz hostname)) (BlocklistCDIRs x)"
  shows "list_all (\<lambda>b. ToLower b = b) strs \<and> \<not> blocklist cz x hostname"
proof -
  have d: "\<forall>b \<in> set strs. b \<noteq> [] \<and> set b \<subseteq> set dnsChars"
    using assms(1) ReadBlocklist_lines_dnsChars [of scanned strs cidrs]
    by (simp add: ReadBlocklist_def)
  have lower: "list_all (\<lambda>b. ToLower b = b) strs"
    using d by (simp add: list_all_iff dnsChars_ToLower)
  have "\<not> Contains hostname b" if b: "b \<in> set strs" for b
  proof
    assume "Contains hostname b"
    then obtain i where i: "i \<le> length hostname" "take (length b) (drop i hostname) = b"
      using Contains_iff by blast
    have "onlyUppercased hostname b"
      using assms(3) b by (simp add: list_all_iff)
    then have "ToLower (take (length b) (drop i hostname)) = b
                \<longrightarrow> list_ex isUpper (take (length b) (drop i hostname))"
      using i(1) by (simp add: onlyUppercased_def list_all_iff del: upt_Suc)
    then have "list_ex isUpper b"
      using i(2) d b by (simp add: dnsChars_ToLower)
    then obtain c where "c \<in> set b" "isUpper c" by (auto simp add: list_ex_iff)
    then show False using d b dnsChars_lower by blast
  qed
  then have "\<not> list_ex (\<lambda>blockstring. Contains hostname blockstring) (BlocklistStrings x)"
    using assms(2) by (simp add: list_ex_iff)
  then show ?thesis
    using lower assms(4) by (simp add: blocklist_def Let_def)
qed

text \<open>The file blocks \<^verbatim>\<open>RAIFFEISEN\<close>; the query for \<^verbatim>\<open>Raiffeisen.8-8-8-8.sslip.io.\<close>
  is not blocked, the one for \<^verbatim>\<open>raiffeisen.8-8-8-8.sslip.io.\<close> is.\<close>

lemma C10_ex_read:
  "ReadBlocklist_lines [''# phishing'', ''RAIFFEISEN # a bank'', ''''] = ([''raiffeisen''], [])"
  by code_simp

lemma C10_ex_upper: "list_all (onlyUppercased ''Raiffeisen.8-8-8-8.sslip.io.'') [''raiffeisen'']"
  by code_simp

lemma C10_ex_blocked: "blocklist Customizations0 (newXip\<lparr>BlocklistStrings := [''raiffeisen'']\<rparr>) ''raiffeisen.8-8-8-8.sslip.io.''"
  by code_simp

theorem C10_witness:
  "ReadBlocklist [''# phishing'', ''RAIFFEISEN # a bank'', ''''] None = Inr ([''raiffeisen''], [])
   \<and> \<not> blocklist Customizations0 (newXip\<lparr>BlocklistStrings := [''raiffeisen'']\<rparr>) ''Raiffeisen.8-8-8-8.sslip.io.''
   \<and> blocklist Customizations0 (newXip\<lparr>BlocklistStrings := [''raiffeisen'']\<rparr>) ''raiffeisen.8-8-8-8.sslip.io.''"
proof -
  let ?x = "newXip\<lparr>BlocklistStrings := [''raiffeisen'']\<rparr>"
  have 1: "ReadBlocklist [''# phishing'', ''RAIFFEISEN # a bank'', ''''] None = Inr ([''raiffeisen''], [])"
    using C10_ex_read by (simp add: ReadBlocklist_def)
  have 2: "BlocklistStrings ?x = [''raiffeisen'']" by simp
  have 4: "\<not> list_ex (\<lambda>blockCDIR. IPNet_Contains blockCDIR
              (blocklistIP Customizations0 ''Raiffeisen.8-8-8-8.sslip.io.'')) (BlocklistCDIRs ?x)"
    by (simp add: newXip_def)
  show ?thesis
    using C10_substrings_case_sensitive [OF 1 2 C10_ex_upper 4] 1 C10_ex_blocked by simp
qed

end
